theory Spec2Isabelle
  imports Complex_Main
begin

section \<open>Python strings\<close>

text \<open>
  A Python \<^verbatim>\<open>str\<close> is a sequence of Unicode code points. It is modelled as a list of
  natural numbers, one per code point, so that the text a JSON
  escape of any code point decodes to is a string like any other. \<open>U\<close> turns an ASCII literal into
  such a string.
\<close>

type_synonym ustr = "nat list"

definition U :: "string \<Rightarrow> ustr" where
  "U s = map of_char s"

text \<open>
  \<^verbatim>\<open>str.isspace\<close> on one code point: the characters that \<^verbatim>\<open>str.strip()\<close> removes and
  that \<^verbatim>\<open>\s\<close> matches in a \<^verbatim>\<open>str\<close> pattern.
\<close>

definition isspace :: "nat \<Rightarrow> bool" where
  "isspace c \<longleftrightarrow>
     (9 \<le> c \<and> c \<le> 13) \<or> (28 \<le> c \<and> c \<le> 32) \<or> c = 133 \<or> c = 160 \<or> c = 5760 \<or>
     (8192 \<le> c \<and> c \<le> 8202) \<or> c = 8232 \<or> c = 8233 \<or> c = 8239 \<or> c = 8287 \<or> c = 12288"

definition lstrip :: "(nat \<Rightarrow> bool) \<Rightarrow> ustr \<Rightarrow> ustr" where
  "lstrip p s = dropWhile p s"

definition rstrip :: "(nat \<Rightarrow> bool) \<Rightarrow> ustr \<Rightarrow> ustr" where
  "rstrip p s = rev (dropWhile p (rev s))"

definition strip :: "ustr \<Rightarrow> ustr" where
  "strip s = rstrip isspace (lstrip isspace s)"

text \<open>The character set of \<^verbatim>\<open>lstrip("\n\r ")\<close> and \<^verbatim>\<open>rstrip("\n\r ")\<close>.\<close>

definition nl_cr_sp :: "nat \<Rightarrow> bool" where
  "nl_cr_sp c \<longleftrightarrow> c = 0x0A \<or> c = 0x0D \<or> c = 0x20"

definition startswith :: "ustr \<Rightarrow> ustr \<Rightarrow> bool" where
  "startswith s p \<longleftrightarrow> take (length p) s = p"

definition endswith :: "ustr \<Rightarrow> ustr \<Rightarrow> bool" where
  "endswith s p \<longleftrightarrow> length p \<le> length s \<and> drop (length s - length p) s = p"

text \<open>
  \<^verbatim>\<open>t.lower().startswith("```json")\<close>. Lower-casing maps no code point other than the
  backquote to a backquote, only \<^verbatim>\<open>J j S s O o N n\<close> to the four letters, and only
  U+0130 to more than one code point (to \<^verbatim>\<open>i\<close> and a combining dot, neither of which
  occurs in the prefix), so the test reads the first seven code points of \<open>t\<close> and
  compares the letters without regard to ASCII case.
\<close>

definition lower_startswith_json_fence :: "ustr \<Rightarrow> bool" where
  "lower_startswith_json_fence t \<longleftrightarrow>
     (case take 7 t of
        [b1, b2, b3, cj, cs, co, cn] \<Rightarrow>
          b1 = 0x60 \<and> b2 = 0x60 \<and> b3 = 0x60 \<and> (cj = 0x4A \<or> cj = 0x6A) \<and>
          (cs = 0x53 \<or> cs = 0x73) \<and> (co = 0x4F \<or> co = 0x6F) \<and> (cn = 0x4E \<or> cn = 0x6E)
      | _ \<Rightarrow> False)"

text \<open>\<^verbatim>\<open>sep.join(parts)\<close>.\<close>

fun join :: "ustr \<Rightarrow> ustr list \<Rightarrow> ustr" where
  "join sep [] = []"
| "join sep [x] = x"
| "join sep (x # y # ys) = x @ sep @ join sep (y # ys)"

section \<open>The standard library's JSON decoder\<close>

text \<open>
  \<^verbatim>\<open>json.loads\<close> is called by the parser but is not part of the repository. It is
  modelled after the decoder of CPython 3.11 and later: the JSON grammar, the extra
  literals \<^verbatim>\<open>NaN\<close>, \<^verbatim>\<open>Infinity\<close> and \<^verbatim>\<open>-Infinity\<close>, strict strings (no raw control
  character), the last of several equal keys winning, and the two ways it fails:
  \<^verbatim>\<open>JSONDecodeError\<close> on text that is not JSON, and a plain \<^verbatim>\<open>ValueError\<close> on an
  integer literal of more than 4300 digits (the interpreter's limit on the conversion
  of decimal strings). A float is carried as its literal, since no property here
  depends on its numeric value, and an object as its key-value pairs in source order.
  Exhaustion of the interpreter's resources (memory, recursion depth on text nested
  thousands of levels deep) is outside the model.
\<close>

datatype json =
    JNull
  | JBool bool
  | JInt int
  | JFloat ustr
  | JStr ustr
  | JArr "json list"
  | JObj "(ustr \<times> json) list"

datatype exn = JSONDecodeError | ValueError

definition json_ws :: "nat \<Rightarrow> bool" where
  "json_ws c \<longleftrightarrow> c = 0x20 \<or> c = 0x09 \<or> c = 0x0A \<or> c = 0x0D"

definition skip_ws :: "ustr \<Rightarrow> ustr" where
  "skip_ws s = dropWhile json_ws s"

definition is_digit :: "nat \<Rightarrow> bool" where
  "is_digit c \<longleftrightarrow> 0x30 \<le> c \<and> c \<le> 0x39"

definition hexval :: "nat \<Rightarrow> nat option" where
  "hexval c =
     (if 0x30 \<le> c \<and> c \<le> 0x39 then Some (c - 0x30)
      else if 0x41 \<le> c \<and> c \<le> 0x46 then Some (c - 0x41 + 10)
      else if 0x61 \<le> c \<and> c \<le> 0x66 then Some (c - 0x61 + 10)
      else None)"

text \<open>The four hexadecimal digits of a \<^verbatim>\<open>\uXXXX\<close> escape, read from the front of \<open>s\<close>.\<close>

definition decode_uXXXX :: "ustr \<Rightarrow> nat option" where
  "decode_uXXXX s =
     (case map hexval (take 4 s) of
        [Some a, Some b, Some c, Some d] \<Rightarrow> Some (((a * 16 + b) * 16 + c) * 16 + d)
      | _ \<Rightarrow> None)"

definition backslash :: "nat \<Rightarrow> nat option" where
  "backslash e =
     (if e = 0x22 then Some 0x22
      else if e = 0x5C then Some 0x5C
      else if e = 0x2F then Some 0x2F
      else if e = 0x62 then Some 0x08
      else if e = 0x66 then Some 0x0C
      else if e = 0x6E then Some 0x0A
      else if e = 0x72 then Some 0x0D
      else if e = 0x74 then Some 0x09
      else None)"

text \<open>
  \<open>scanstring acc s\<close> reads a string's characters from just after its opening quote
  and returns the decoded text with the input left after the closing quote.
\<close>

fun scanstring :: "ustr \<Rightarrow> ustr \<Rightarrow> exn + ustr \<times> ustr" where
  "scanstring acc [] = Inl JSONDecodeError"
| "scanstring acc (c # cs) =
     (if c = 0x22 then Inr (acc, cs)
      else if c = 0x5C then
        (case cs of
           [] \<Rightarrow> Inl JSONDecodeError
         | e # r \<Rightarrow>
             if e = 0x75 then
               (case decode_uXXXX r of
                  None \<Rightarrow> Inl JSONDecodeError
                | Some uni \<Rightarrow>
                    if 0xD800 \<le> uni \<and> uni \<le> 0xDBFF \<and> take 2 (drop 4 r) = [0x5C, 0x75] then
                      (case decode_uXXXX (drop 6 r) of
                         None \<Rightarrow> Inl JSONDecodeError
                       | Some uni2 \<Rightarrow>
                           if 0xDC00 \<le> uni2 \<and> uni2 \<le> 0xDFFF then
                             scanstring
                               (acc @ [0x10000 + ((uni - 0xD800) * 1024 + (uni2 - 0xDC00))])
                               (drop 10 r)
                           else scanstring (acc @ [uni]) (drop 4 r))
                    else scanstring (acc @ [uni]) (drop 4 r))
             else
               (case backslash e of
                  None \<Rightarrow> Inl JSONDecodeError
                | Some ch \<Rightarrow> scanstring (acc @ [ch]) r))
      else if c < 0x20 then Inl JSONDecodeError
      else scanstring (acc @ [c]) cs)"

text \<open>The value of a run of decimal digits.\<close>

definition int_of_digits :: "ustr \<Rightarrow> int" where
  "int_of_digits ds = foldl (\<lambda>a d. 10 * a + int (d - 0x30)) 0 ds"

text \<open>
  The number pattern \<^verbatim>\<open>(-?(?:0|[1-9][0-9]*))(\.[0-9]+)?([eE][-+]?[0-9]+)?\<close> matched at
  the front of \<open>s\<close>: the three groups, or \<open>None\<close> when the integer part is missing.
\<close>

definition match_integer :: "ustr \<Rightarrow> ustr option" where
  "match_integer s =
     (let sign = (if startswith s [0x2D] then [0x2D] else []);
          r = drop (length sign) s
      in case r of
           [] \<Rightarrow> None
         | d # ds \<Rightarrow>
             if d = 0x30 then Some (sign @ [d])
             else if is_digit d then Some (sign @ d # takeWhile is_digit ds)
             else None)"

definition match_frac :: "ustr \<Rightarrow> ustr" where
  "match_frac s =
     (case s of
        p # d # ds \<Rightarrow> if p = 0x2E \<and> is_digit d then p # d # takeWhile is_digit ds else []
      | _ \<Rightarrow> [])"

definition match_exp :: "ustr \<Rightarrow> ustr" where
  "match_exp s =
     (case s of
        [] \<Rightarrow> []
      | e # r \<Rightarrow>
          if e = 0x65 \<or> e = 0x45 then
            (let sign = (if startswith r [0x2B] \<or> startswith r [0x2D] then take 1 r else []);
                 ds = takeWhile is_digit (drop (length sign) r)
             in if ds = [] then [] else e # sign @ ds)
          else [])"

text \<open>
  A number at the front of \<open>s\<close>: \<open>None\<close> when the pattern does not match, otherwise
  the value and the rest of the input, or the \<^verbatim>\<open>ValueError\<close> of an integer literal
  longer than the interpreter converts.
\<close>

definition max_str_digits :: nat where
  "max_str_digits = 4300"

definition scan_number :: "ustr \<Rightarrow> (exn + json \<times> ustr) option" where
  "scan_number s =
     (case match_integer s of
        None \<Rightarrow> None
      | Some integer \<Rightarrow>
          (let frac = match_frac (drop (length integer) s);
               exp = match_exp (drop (length integer + length frac) s);
               rest = drop (length integer + length frac + length exp) s
           in if frac \<noteq> [] \<or> exp \<noteq> [] then Some (Inr (JFloat (integer @ frac @ exp), rest))
              else
                (let neg = startswith integer [0x2D];
                     ds = (if neg then tl integer else integer)
                 in if max_str_digits < length ds then Some (Inl ValueError)
                    else Some (Inr (JInt (if neg then - int_of_digits ds else int_of_digits ds),
                                    rest)))))"

text \<open>
  A value that is not an object or an array, at the front of \<open>s\<close>, tried in the
  decoder's order: string, \<^verbatim>\<open>null\<close>, \<^verbatim>\<open>true\<close>, \<^verbatim>\<open>false\<close>, number, \<^verbatim>\<open>NaN\<close>,
  \<^verbatim>\<open>Infinity\<close>, \<^verbatim>\<open>-Infinity\<close>.
\<close>

definition scan_scalar :: "ustr \<Rightarrow> exn + json \<times> ustr" where
  "scan_scalar s =
     (if startswith s [0x22] then
        (case scanstring [] (tl s) of Inl e \<Rightarrow> Inl e | Inr (v, r) \<Rightarrow> Inr (JStr v, r))
      else if startswith s (U ''null'') then Inr (JNull, drop 4 s)
      else if startswith s (U ''true'') then Inr (JBool True, drop 4 s)
      else if startswith s (U ''false'') then Inr (JBool False, drop 5 s)
      else
        (case scan_number s of
           Some res \<Rightarrow> res
         | None \<Rightarrow>
             if startswith s (U ''NaN'') then Inr (JFloat (U ''NaN''), drop 3 s)
             else if startswith s (U ''Infinity'') then Inr (JFloat (U ''Infinity''), drop 8 s)
             else if startswith s (U ''-Infinity'') then Inr (JFloat (U ''-Infinity''), drop 9 s)
             else Inl JSONDecodeError))"

text \<open>
  An object's key from just after its opening quote, then the colon, with the white
  space around it: the key and the input at the value.
\<close>

definition scan_key :: "ustr \<Rightarrow> exn + ustr \<times> ustr" where
  "scan_key s =
     (case scanstring [] s of
        Inl e \<Rightarrow> Inl e
      | Inr (k, r) \<Rightarrow>
          (case skip_ws r of
             [] \<Rightarrow> Inl JSONDecodeError
           | c # cs \<Rightarrow> if c = 0x3A then Inr (k, skip_ws cs) else Inl JSONDecodeError))"

text \<open>
  The decoder descends into arrays and objects recursively. Here the containers under
  construction are an explicit stack of frames, innermost first: an array with the
  elements read so far, or an object with the pairs read so far and the key whose value
  is being read. A configuration is either at the start of a value (\<open>Scan\<close>) or just
  after one (\<open>Resume\<close>).
\<close>

datatype frame = InArr "json list" | InObj "(ustr \<times> json) list" ustr

datatype config = Scan "frame list" ustr | Resume "frame list" json ustr

definition scan_step :: "frame list \<Rightarrow> ustr \<Rightarrow> exn + config" where
  "scan_step stk s =
     (case s of
        [] \<Rightarrow> Inl JSONDecodeError
      | c # cs \<Rightarrow>
          if c = 0x7B then
            (case skip_ws cs of
               [] \<Rightarrow> Inl JSONDecodeError
             | d # ds \<Rightarrow>
                 if d = 0x7D then Inr (Resume stk (JObj []) ds)
                 else if d = 0x22 then
                   (case scan_key ds of
                      Inl e \<Rightarrow> Inl e
                    | Inr (k, r) \<Rightarrow> Inr (Scan (InObj [] k # stk) r))
                 else Inl JSONDecodeError)
          else if c = 0x5B then
            (case skip_ws cs of
               [] \<Rightarrow> Inl JSONDecodeError
             | d # ds \<Rightarrow>
                 if d = 0x5D then Inr (Resume stk (JArr []) ds)
                 else Inr (Scan (InArr [] # stk) (d # ds)))
          else
            (case scan_scalar s of
               Inl e \<Rightarrow> Inl e
             | Inr (v, r) \<Rightarrow> Inr (Resume stk v r)))"

definition resume_step :: "frame \<Rightarrow> frame list \<Rightarrow> json \<Rightarrow> ustr \<Rightarrow> exn + config" where
  "resume_step f stk v s =
     (case skip_ws s of
        [] \<Rightarrow> Inl JSONDecodeError
      | c # cs \<Rightarrow>
          (case f of
             InArr acc \<Rightarrow>
               if c = 0x5D then Inr (Resume stk (JArr (acc @ [v])) cs)
               else if c = 0x2C then Inr (Scan (InArr (acc @ [v]) # stk) (skip_ws cs))
               else Inl JSONDecodeError
           | InObj acc k \<Rightarrow>
               if c = 0x7D then Inr (Resume stk (JObj (acc @ [(k, v)])) cs)
               else if c = 0x2C then
                 (case skip_ws cs of
                    [] \<Rightarrow> Inl JSONDecodeError
                  | d # ds \<Rightarrow>
                      if d = 0x22 then
                        (case scan_key ds of
                           Inl e \<Rightarrow> Inl e
                         | Inr (k', r) \<Rightarrow> Inr (Scan (InObj (acc @ [(k, v)]) k' # stk) r))
                      else Inl JSONDecodeError)
               else Inl JSONDecodeError))"

fun remaining :: "config \<Rightarrow> nat" where
  "remaining (Scan stk s) = 2 * length s + 1"
| "remaining (Resume stk v s) = 2 * length s"

text \<open>Each scanner returns less input than it was given.\<close>

lemma scanstring_shorter: "scanstring acc s = Inr (v, r) \<Longrightarrow> length r < length s"
proof (induction acc s rule: scanstring.induct)
  case (1 acc)
  then show ?case by simp
next
  case (2 acc c cs)
  show ?case
  proof (cases "c = 0x22")
    case True
    with "2.prems" show ?thesis by simp
  next
    case notq: False
    show ?thesis
    proof (cases "c = 0x5C")
      case False
      with notq "2.prems" have "\<not> c < 0x20" and "scanstring (acc @ [c]) cs = Inr (v, r)"
        by (auto split: if_splits)
      with "2.IH"(5) notq False have "length r < length cs"
        by simp
      then show ?thesis by simp
    next
      case True
      with "2.prems" obtain e r0 where cs: "cs = e # r0"
        by (cases cs) auto
      show ?thesis
      proof (cases "e = 0x75")
        case False
        with True notq cs "2.prems" obtain ch where ch: "backslash e = Some ch"
          and "scanstring (acc @ [ch]) r0 = Inr (v, r)"
          by (auto split: option.splits)
        with "2.IH"(4) [OF notq True cs False] have "length r < length r0"
          by simp
        with cs show ?thesis by simp
      next
        case eu: True
        with True notq cs "2.prems" obtain uni where uni: "decode_uXXXX r0 = Some uni"
          by (auto split: option.splits)
        show ?thesis
        proof (cases "0xD800 \<le> uni \<and> uni \<le> 0xDBFF \<and> take 2 (drop 4 r0) = [0x5C, 0x75]")
          case False
          with eu True notq cs uni "2.prems" have "scanstring (acc @ [uni]) (drop 4 r0) = Inr (v, r)"
            by (auto split: if_splits)
          with "2.IH"(3) [OF notq True cs eu uni False] have "length r < length (drop 4 r0)"
            by simp
          with cs show ?thesis by simp
        next
          case pair: True
          with eu True notq cs uni "2.prems" obtain uni2 where uni2: "decode_uXXXX (drop 6 r0) = Some uni2"
            by (auto split: option.splits)
          show ?thesis
          proof (cases "0xDC00 \<le> uni2 \<and> uni2 \<le> 0xDFFF")
            case low: True
            with pair eu True notq cs uni uni2 "2.prems"
            have "scanstring (acc @ [0x10000 + ((uni - 0xD800) * 1024 + (uni2 - 0xDC00))]) (drop 10 r0) = Inr (v, r)"
              by simp
            with "2.IH"(1) [OF notq True cs eu uni pair uni2 low] have "length r < length (drop 10 r0)"
              by simp
            with cs show ?thesis by simp
          next
            case nolow: False
            with pair eu True notq cs uni uni2 "2.prems"
            have "scanstring (acc @ [uni]) (drop 4 r0) = Inr (v, r)"
              by auto
            with "2.IH"(2) [OF notq True cs eu uni pair uni2 nolow] have "length r < length (drop 4 r0)"
              by simp
            with cs show ?thesis by simp
          qed
        qed
      qed
    qed
  qed
qed

lemma skip_ws_le: "length (skip_ws s) \<le> length s"
  by (simp add: skip_ws_def length_dropWhile_le)

lemma skip_ws_less: "length s < n \<Longrightarrow> length (skip_ws s) < n"
  using skip_ws_le [of s] by simp

lemma skip_ws_Cons: "skip_ws s = c # cs \<Longrightarrow> length cs < length s"
  using skip_ws_le [of s] by simp

lemma match_integer_nonempty: "match_integer s = Some i \<Longrightarrow> i \<noteq> [] \<and> s \<noteq> []"
  by (auto simp: match_integer_def Let_def startswith_def split: list.splits if_splits)

lemma scan_number_shorter: "scan_number s = Some (Inr (v, r)) \<Longrightarrow> length r < length s"
  by (auto simp: scan_number_def Let_def split: option.splits if_splits dest!: match_integer_nonempty)

lemma scan_scalar_shorter: "scan_scalar s = Inr (v, r) \<Longrightarrow> length r < length s"
proof (cases s)
  case Nil
  then show "scan_scalar s = Inr (v, r) \<Longrightarrow> length r < length s"
    by (auto simp: scan_scalar_def startswith_def U_def scan_number_def match_integer_def)
next
  case (Cons c cs)
  assume "scan_scalar s = Inr (v, r)"
  with Cons show "length r < length s"
    unfolding scan_scalar_def
    by (auto simp: startswith_def split: if_splits sum.splits option.splits
        dest!: scanstring_shorter scan_number_shorter)
qed

lemma scan_key_shorter: "scan_key s = Inr (k, r) \<Longrightarrow> length r < length s"
  unfolding scan_key_def
  by (auto split: sum.splits list.splits if_splits dest!: scanstring_shorter skip_ws_Cons
      intro!: skip_ws_less)

lemma scan_step_remaining: "scan_step stk s = Inr c \<Longrightarrow> remaining c < remaining (Scan stk s)"
  unfolding scan_step_def
  by (auto split: list.splits if_splits sum.splits dest!: scan_key_shorter scan_scalar_shorter skip_ws_Cons)

lemma resume_step_remaining:
  "resume_step f stk v s = Inr c \<Longrightarrow> remaining c < remaining (Resume (f # stk) v s)"
proof -
  assume a: "resume_step f stk v s = Inr c"
  then obtain d ds where d: "skip_ws s = d # ds"
    by (auto simp: resume_step_def split: list.splits)
  then have ds: "length ds < length s"
    by (rule skip_ws_Cons)
  have ws: "length (skip_ws ds) < length s"
    using ds by (rule skip_ws_less)
  from a d ds ws show ?thesis
    unfolding resume_step_def
    by (auto split: list.splits if_splits sum.splits frame.splits dest!: scan_key_shorter skip_ws_Cons)
qed

text \<open>
  The decoder proper: steps until the outermost value is complete and returns it with
  the input that follows. Every step consumes input, which is why it terminates.
\<close>

function run :: "config \<Rightarrow> exn + json \<times> ustr" where
  "run (Scan stk s) = (case scan_step stk s of Inl e \<Rightarrow> Inl e | Inr c \<Rightarrow> run c)"
| "run (Resume [] v s) = Inr (v, s)"
| "run (Resume (f # stk) v s) =
     (case resume_step f stk v s of Inl e \<Rightarrow> Inl e | Inr c \<Rightarrow> run c)"
  by pat_completeness auto
termination
  by (relation "measure remaining") (auto dest: scan_step_remaining resume_step_remaining)

text \<open>
  \<^verbatim>\<open>json.loads(s)\<close> for a \<^verbatim>\<open>str\<close>: a leading byte-order mark is refused, white space
  around the value is skipped, and anything after it is an error.
\<close>

definition json_loads :: "ustr \<Rightarrow> exn + json" where
  "json_loads s =
     (if startswith s [0xFEFF] then Inl JSONDecodeError
      else
        (case run (Scan [] (skip_ws s)) of
           Inl e \<Rightarrow> Inl e
         | Inr (v, r) \<Rightarrow> if skip_ws r = [] then Inr v else Inl JSONDecodeError))"

section \<open>The regular expressions of the pattern-fallback tier\<close>

text \<open>
  \<^verbatim>\<open>re.search\<close> is the standard library's. The three patterns of the parser are
  sequences of literals, greedy stars of a character class, and one capturing group
  \<^verbatim>\<open>([^"]+)\<close>; the matcher below covers exactly that fragment, with the library's
  backtracking order: a greedy repetition takes the longest run first and gives
  characters back one at a time, and the search tries the start positions from left to
  right. The result of a successful match is the text of the group.
\<close>

datatype cls = Space | Except nat

fun in_cls :: "cls \<Rightarrow> nat \<Rightarrow> bool" where
  "in_cls Space c = isspace c"
| "in_cls (Except x) c = (c \<noteq> x)"

datatype piece = Lit ustr | Star cls | GroupPlus cls

text \<open>\<open>first_down f lo k\<close>: the first success of \<open>f\<close> among \<open>k, k - 1, ..., lo\<close>.\<close>

fun first_down :: "(nat \<Rightarrow> 'a option) \<Rightarrow> nat \<Rightarrow> nat \<Rightarrow> 'a option" where
  "first_down f lo k =
     (if k < lo then None
      else
        (case f k of
           Some r \<Rightarrow> Some r
         | None \<Rightarrow> if k = 0 then None else first_down f lo (k - 1)))"

declare first_down.simps [simp del]

primrec rmatch :: "piece list \<Rightarrow> ustr \<Rightarrow> ustr option" where
  "rmatch [] s = Some []"
| "rmatch (p # ps) s =
     (case p of
        Lit l \<Rightarrow> if startswith s l then rmatch ps (drop (length l) s) else None
      | Star c \<Rightarrow>
          first_down (\<lambda>k. rmatch ps (drop k s)) 0 (length (takeWhile (in_cls c) s))
      | GroupPlus c \<Rightarrow>
          first_down
            (\<lambda>k. case rmatch ps (drop k s) of None \<Rightarrow> None | Some _ \<Rightarrow> Some (take k s))
            1 (length (takeWhile (in_cls c) s)))"

fun re_search :: "piece list \<Rightarrow> ustr \<Rightarrow> ustr option" where
  "re_search ps [] = rmatch ps []"
| "re_search ps (c # cs) =
     (case rmatch ps (c # cs) of Some g \<Rightarrow> Some g | None \<Rightarrow> re_search ps cs)"

text \<open>
  \<^verbatim>\<open>\{[^\}]*"KEY"\s*:\s*"([^"]+)"[^\}]*\}\<close> for the keys \<^verbatim>\<open>final answer\<close>, \<^verbatim>\<open>code\<close>
  and \<^verbatim>\<open>analysis\<close>. The flag \<^verbatim>\<open>re.DOTALL\<close> of the last two changes nothing: the
  patterns have no dot.
\<close>

definition key_pattern :: "ustr \<Rightarrow> piece list" where
  "key_pattern key =
     [Lit [0x7B], Star (Except 0x7D), Lit ([0x22] @ key @ [0x22]), Star Space, Lit [0x3A],
      Star Space, Lit [0x22], GroupPlus (Except 0x22), Lit [0x22], Star (Except 0x7D),
      Lit [0x7D]]"

section \<open>The response parser (llm\_parser.py)\<close>

record parsed_response =
  raw_response :: ustr
  type :: ustr
  content :: json
  code_blocks :: "ustr list"
  final_answer :: json
  analysis :: json
  delegation :: json
  requires_followup :: bool

text \<open>
  The values of a response are Python objects: \<open>JNull\<close> is \<^verbatim>\<open>None\<close> and \<open>JStr\<close> a
  \<^verbatim>\<open>str\<close>. A decoded object is a \<^verbatim>\<open>dict\<close>, in which the last of several equal
  keys is the one that counts.
\<close>

definition dict_get :: "(ustr \<times> 'a) list \<Rightarrow> ustr \<Rightarrow> 'a option" where
  "dict_get pairs k = map_of (rev pairs) k"

text \<open>
  \<^verbatim>\<open>str(c)\<close>: a string is itself. What the interpreter prints for any other value
  (floats, nested containers) is a parameter \<open>str_of\<close> of the model.
\<close>

definition py_str :: "(json \<Rightarrow> ustr) \<Rightarrow> json \<Rightarrow> ustr" where
  "py_str str_of v = (case v of JStr s \<Rightarrow> s | _ \<Rightarrow> str_of v)"

definition strip_backticks_if_needed :: "ustr \<Rightarrow> ustr" where
  "strip_backticks_if_needed text =
     (if text = [] then []
      else
        (let t = strip text;
             t1 = (if lower_startswith_json_fence t then lstrip nl_cr_sp (drop 7 t)
                   else if startswith t (U ''```'') then lstrip nl_cr_sp (drop 3 t)
                   else t);
             t2 = (if endswith t1 (U ''```'') then rstrip nl_cr_sp (take (length t1 - 3) t1)
                   else t1)
         in strip t2))"

text \<open>Step 2 and 3 of \<^verbatim>\<open>parse_response\<close>: the regular expressions, then continuation.\<close>

definition pattern_fallback :: "parsed_response \<Rightarrow> ustr \<Rightarrow> parsed_response" where
  "pattern_fallback result text =
     (case re_search (key_pattern (U ''final answer'')) text of
        Some val \<Rightarrow>
          result\<lparr>type := U ''final_answer'', final_answer := JStr val, content := JStr val\<rparr>
      | None \<Rightarrow>
          (case re_search (key_pattern (U ''code'')) text of
             Some code_val \<Rightarrow>
               (let analysis_val =
                      (case re_search (key_pattern (U ''analysis'')) text of
                         Some a \<Rightarrow> JStr a
                       | None \<Rightarrow> JNull)
                in result\<lparr>type := U ''code'', code_blocks := [code_val],
                     analysis := analysis_val, content := JStr code_val\<rparr>)
           | None \<Rightarrow> result\<lparr>content := JStr text, requires_followup := True\<rparr>))"

text \<open>
  \<^verbatim>\<open>LLMParser.parse_response\<close>. The \<^verbatim>\<open>try\<close> catches \<^verbatim>\<open>json.JSONDecodeError\<close> only, so
  any other exception of the decoder leaves the function: the result is \<open>Inl\<close> of it.
\<close>

definition parse_response :: "(json \<Rightarrow> ustr) \<Rightarrow> ustr \<Rightarrow> exn + parsed_response" where
  "parse_response str_of response =
     (let result =
            \<lparr>raw_response = response, type = U ''continuation'', content = JStr [],
             code_blocks = [], final_answer = JNull, analysis = JNull, delegation = JNull,
             requires_followup = False\<rparr>
      in if response = [] \<or> strip response = [] then Inr (result\<lparr>requires_followup := True\<rparr>)
         else
           (let text = strip response;
                cleaned = strip_backticks_if_needed text
            in case json_loads cleaned of
                 Inl JSONDecodeError \<Rightarrow> Inr (pattern_fallback result text)
               | Inl ValueError \<Rightarrow> Inl ValueError
               | Inr (JObj pairs) \<Rightarrow>
                   (case dict_get pairs (U ''final answer'') of
                      Some answer \<Rightarrow>
                        Inr (result\<lparr>type := U ''final_answer'', final_answer := answer,
                               content := answer\<rparr>)
                    | None \<Rightarrow>
                        (case dict_get pairs (U ''code'') of
                           Some code_content \<Rightarrow>
                             (let blocks =
                                    (case code_content of
                                       JStr s \<Rightarrow> [s]
                                     | JArr cs \<Rightarrow> map (py_str str_of) cs
                                     | _ \<Rightarrow> [py_str str_of code_content])
                              in Inr (result\<lparr>type := U ''code'', code_blocks := blocks,
                                        analysis :=
                                          (case dict_get pairs (U ''analysis'') of
                                             Some a \<Rightarrow> a
                                           | None \<Rightarrow> JNull),
                                        content := JStr (join [0x0A, 0x0A] blocks)\<rparr>))
                         | None \<Rightarrow> Inr (pattern_fallback result text)))
               | Inr _ \<Rightarrow> Inr (pattern_fallback result text)))"

text \<open>\<^verbatim>\<open>parse_llm_response\<close>, the module-level entry point.\<close>

definition parse_llm_response :: "(json \<Rightarrow> ustr) \<Rightarrow> ustr \<Rightarrow> exn + parsed_response" where
  "parse_llm_response str_of text = parse_response str_of text"

section \<open>The feedback orchestrator (llm\_orchestrator.py)\<close>

text \<open>
  The orchestrator reads the clock, calls a provider through \<^verbatim>\<open>_call_with_timeout\<close> and
  runs code through the executor it was constructed with. These are the environment of
  the model: the world holds the clock reading (\<^verbatim>\<open>time.time()\<close>, in seconds, as an
  integer number of ticks) and a log of the provider calls and executor runs made so
  far; the environment says, from the world, what a call returns and how long it takes.
  A provider call is logged with the provider's name, the prompt and the clock reading
  at which it starts.
\<close>

record exec_result =
  success :: bool
  stdout :: ustr
  stderr :: ustr

record world =
  now :: int
  calls :: "(ustr \<times> ustr \<times> int) list"
  runs :: "ustr list list"

record env =
  call_with_timeout :: "ustr \<Rightarrow> ustr \<Rightarrow> world \<Rightarrow> ustr option \<times> nat"
  executor_run :: "ustr list \<Rightarrow> (ustr \<times> ustr) list \<Rightarrow> world \<Rightarrow> exec_result \<times> nat"
  builtin_str :: "json \<Rightarrow> ustr"
  builtin_repr :: "ustr \<Rightarrow> ustr"

text \<open>
  A result is a Python \<^verbatim>\<open>dict\<close> with string keys, written as its items in order. Its
  values are plain values (\<^verbatim>\<open>None\<close>, booleans, integers, strings, decoded JSON) or the
  parser's result.
\<close>

datatype pyval = Val json | Parsed parsed_response

type_synonym result = "(ustr \<times> pyval) list"

record orchestrator =
  max_iterations :: nat
  global_budget_sec :: int

text \<open>The values set in \<^verbatim>\<open>LLMOrchestrator.__init__\<close>.\<close>

definition LLMOrchestrator :: orchestrator where
  "LLMOrchestrator = \<lparr>max_iterations = 9, global_budget_sec = 300\<rparr>"

text \<open>\<^verbatim>\<open>str(n)\<close> for a non-negative integer.\<close>

function str_nat :: "nat \<Rightarrow> ustr" where
  "str_nat n = (if n < 10 then [0x30 + n] else str_nat (n div 10) @ [0x30 + n mod 10])"
  by pat_completeness auto
termination
  by (relation "measure id") auto

declare str_nat.simps [simp del]

text \<open>
  \<^verbatim>\<open>str(exec_results)\<close>, the executor's dictionary as it appears in the history; the
  \<^verbatim>\<open>repr\<close> of a string is the interpreter's.
\<close>

definition str_exec_result :: "(ustr \<Rightarrow> ustr) \<Rightarrow> exec_result \<Rightarrow> ustr" where
  "str_exec_result repr r =
     U ''{'' @ [0x27] @ U ''success'' @ [0x27] @ U '': '' @ (if success r then U ''True'' else U ''False'') @
     U '', '' @ [0x27] @ U ''stdout'' @ [0x27] @ U '': '' @ repr (stdout r) @ U '', '' @ [0x27] @ U ''stderr'' @ [0x27] @ U '': '' @ repr (stderr r) @ U ''}''"

definition build_feedback_prompt :: "ustr \<Rightarrow> ustr list \<Rightarrow> ustr" where
  "build_feedback_prompt original_prompt history =
     [0x0A] @ U ''Original Question:'' @ [0x0A] @
     original_prompt @
     [0x0A, 0x0A] @ U ''Here is the full history of attempts so far:'' @ [0x0A] @
     join ([0x0A, 0x0A] @ U ''---'' @ [0x0A, 0x0A]) history @
     [0x0A, 0x0A] @ U ''Now, based on this history, please either:'' @ [0x0A] @
     U ''1. Provide the **final answer** in JSON format: { '' @ [0x22] @ U ''final answer'' @
     [0x22] @ U '': ... }'' @ [0x0A] @
     U ''2. OR, if more work is needed, provide only the next incremental code block in the format: {'' @
     [0x22] @ U ''code'' @ [0x22] @ U '': <code to be executed>, '' @ [0x0A, 0x22] @
     U ''analysis'' @ [0x22] @ U '': <brief description of further analysis made by you>}'' @
     [0x0A, 0x0A] @ U ''But try to construct efficient code at once. '' @ [0x0A] @
     U ''And if the received input is satisfactory, try to analyze and give the final answer at the earliest according to the format mentioned previously.'' @
     [0x0A]"

definition history_entry :: "nat \<Rightarrow> ustr \<Rightarrow> ustr \<Rightarrow> ustr" where
  "history_entry iteration llm_output exec_results =
     U ''Iteration '' @ str_nat iteration @ [0x0A] @ U ''Model output:'' @ [0x0A] @ llm_output @
     [0x0A, 0x0A] @ U ''Execution Results:'' @ [0x0A] @ exec_results @ [0x0A]"

definition continuation_prompt :: "ustr \<Rightarrow> ustr \<Rightarrow> ustr" where
  "continuation_prompt initial_prompt llm_output =
     initial_prompt @ [0x0A, 0x0A] @ U ''Previous response:'' @ [0x0A] @ llm_output @
     [0x0A, 0x0A] @ U ''Please provide the final answer or executable code.''"

text \<open>The dictionaries that \<^verbatim>\<open>_run_api_loop\<close> and \<^verbatim>\<open>feedback_loop\<close> return.\<close>

definition deadline_exceeded :: "ustr \<Rightarrow> result" where
  "deadline_exceeded api_name =
     [(U ''success'', Val (JBool False)),
      (U ''error'', Val (JStr (U ''Global deadline exceeded for '' @ api_name))),
      (U ''final_answer'', Val JNull)]"

definition unknown_api :: "ustr \<Rightarrow> result" where
  "unknown_api api_name =
     [(U ''success'', Val (JBool False)),
      (U ''error'', Val (JStr (U ''Unknown API: '' @ api_name)))]"

definition returned_none :: "ustr \<Rightarrow> result" where
  "returned_none api_name =
     [(U ''success'', Val (JBool False)),
      (U ''error'', Val (JStr (api_name @ U '' API returned None'')))]"

definition answered :: "ustr \<Rightarrow> nat \<Rightarrow> parsed_response \<Rightarrow> ustr \<Rightarrow> result" where
  "answered api_name iteration parsed llm_output =
     [(U ''success'', Val (JBool True)),
      (U ''final_answer'', Val (content parsed)),
      (U ''api_used'', Val (JStr api_name)),
      (U ''iterations'', Val (JInt (int iteration))),
      (U ''parsed'', Parsed parsed),
      (U ''raw_output'', Val (JStr llm_output))]"

definition max_iterations_reached :: "orchestrator \<Rightarrow> ustr \<Rightarrow> result" where
  "max_iterations_reached self api_name =
     [(U ''success'', Val (JBool False)),
      (U ''error'',
       Val (JStr (U ''Maximum iterations ('' @ str_nat (max_iterations self) @
                  U '') reached for '' @ api_name))),
      (U ''final_answer'', Val JNull)]"

definition all_failed :: result where
  "all_failed =
     [(U ''success'', Val (JBool False)),
      (U ''error'',
       Val (JStr (U ''All APIs (Gemini, Nvidia, OpenAI) failed to provide a response''))),
      (U ''final_answer'', Val JNull)]"

text \<open>
  One pass through the body of the \<^verbatim>\<open>while\<close> loop of \<^verbatim>\<open>_run_api_loop\<close>, after the
  deadline check and the increment of \<^verbatim>\<open>iteration\<close>: it either returns from the function
  (a result, or the exception of the parser) or goes round again with a new history and
  prompt.
\<close>

datatype step = Return "exn + result" | Continue "ustr list" ustr

definition loop_body ::
  "env \<Rightarrow> ustr \<Rightarrow> ustr \<Rightarrow> (ustr \<times> ustr) list \<Rightarrow> ustr list \<Rightarrow> ustr \<Rightarrow> nat \<Rightarrow> world \<Rightarrow>
   step \<times> world" where
  "loop_body e api_name initial_prompt file_map history current_prompt iteration w =
     (if api_name \<noteq> U ''openai'' \<and> api_name \<noteq> U ''nvidia'' \<and> api_name \<noteq> U ''gemini'' then
        (Return (Inr (unknown_api api_name)), w)
      else
        (let (llm_output, dt) = call_with_timeout e api_name current_prompt w;
             w1 = w\<lparr>now := now w + int dt,
                    calls := calls w @ [(api_name, current_prompt, now w)]\<rparr>
         in case llm_output of
              None \<Rightarrow> (Return (Inr (returned_none api_name)), w1)
            | Some out \<Rightarrow>
                if out = [] then (Return (Inr (returned_none api_name)), w1)
                else
                  (case parse_llm_response (builtin_str e) out of
                     Inl exc \<Rightarrow> (Return (Inl exc), w1)
                   | Inr parsed \<Rightarrow>
                       if type parsed = U ''final_answer'' then
                         (Return (Inr (answered api_name iteration parsed out)), w1)
                       else if type parsed = U ''code'' \<and> code_blocks parsed \<noteq> [] then
                         (let (exec_results, dt2) = executor_run e (code_blocks parsed) file_map w1;
                              w2 = w1\<lparr>now := now w1 + int dt2,
                                      runs := runs w1 @ [code_blocks parsed]\<rparr>;
                              history' =
                                history @
                                [history_entry iteration out
                                   (str_exec_result (builtin_repr e) exec_results)]
                          in (Continue history' (build_feedback_prompt initial_prompt history'),
                              w2))
                       else (Continue history (continuation_prompt initial_prompt out), w1))))"

text \<open>The \<^verbatim>\<open>while\<close> loop: the iteration cap, then the deadline, then the body.\<close>

function while_loop ::
  "env \<Rightarrow> orchestrator \<Rightarrow> ustr \<Rightarrow> ustr \<Rightarrow> (ustr \<times> ustr) list \<Rightarrow> int \<Rightarrow> ustr list \<Rightarrow> ustr \<Rightarrow>
   nat \<Rightarrow> world \<Rightarrow> (exn + result) \<times> world" where
  "while_loop e self api_name initial_prompt file_map deadline history current_prompt iteration w =
     (if iteration < max_iterations self then
        (if deadline \<le> now w then (Inr (deadline_exceeded api_name), w)
         else
           (case loop_body e api_name initial_prompt file_map history current_prompt
                   (iteration + 1) w of
              (Return r, w') \<Rightarrow> (r, w')
            | (Continue history' prompt', w') \<Rightarrow>
                while_loop e self api_name initial_prompt file_map deadline history' prompt'
                  (iteration + 1) w'))
      else (Inr (max_iterations_reached self api_name), w))"
  by pat_completeness auto
termination
  by (relation "measure (\<lambda>(e, self, api_name, initial_prompt, file_map, deadline, history,
        current_prompt, iteration, w). max_iterations self - iteration)") auto

declare while_loop.simps [simp del]

definition run_api_loop ::
  "env \<Rightarrow> orchestrator \<Rightarrow> ustr \<Rightarrow> ustr \<Rightarrow> (ustr \<times> ustr) list \<Rightarrow> world \<Rightarrow>
   (exn + result) \<times> world" where
  "run_api_loop e self api_name initial_prompt file_map w =
     while_loop e self api_name initial_prompt file_map (now w + global_budget_sec self) []
       initial_prompt 0 w"

text \<open>
  \<^verbatim>\<open>feedback_loop\<close>: the providers in the order of the list \<^verbatim>\<open>apis\<close>; the first result
  whose \<^verbatim>\<open>success\<close> is true is returned, and an exception ends the loop.
\<close>

definition apis :: "ustr list" where
  "apis = [U ''nvidia'', U ''gemini'', U ''openai'']"

fun for_api ::
  "env \<Rightarrow> orchestrator \<Rightarrow> ustr \<Rightarrow> (ustr \<times> ustr) list \<Rightarrow> ustr list \<Rightarrow> world \<Rightarrow>
   (exn + result) \<times> world" where
  "for_api e self first_prompt file_map [] w = (Inr all_failed, w)"
| "for_api e self first_prompt file_map (api # rest) w =
     (case run_api_loop e self api first_prompt file_map w of
        (Inl exc, w') \<Rightarrow> (Inl exc, w')
      | (Inr result, w') \<Rightarrow>
          if dict_get result (U ''success'') = Some (Val (JBool True)) then (Inr result, w')
          else for_api e self first_prompt file_map rest w')"

definition feedback_loop ::
  "env \<Rightarrow> orchestrator \<Rightarrow> ustr \<Rightarrow> (ustr \<times> ustr) list \<Rightarrow> world \<Rightarrow> (exn + result) \<times> world" where
  "feedback_loop e self first_prompt file_map w = for_api e self first_prompt file_map apis w"

section \<open>The provider client (utils/llm\_clients.py)\<close>

text \<open>
  Times of the client are \<^verbatim>\<open>time.time()\<close> readings and sleep lengths in seconds, as real
  numbers.
\<close>

record breaker =
  failures :: nat
  threshold :: nat
  cooldown_sec :: real
  block_until :: real


definition record_success :: "breaker \<Rightarrow> breaker" where
  "record_success b = b\<lparr>failures := 0, block_until := 0\<rparr>"

text \<open>\<open>record_failure t b\<close> and \<open>is_open t b\<close>: \<open>t\<close> is the clock reading of the call.\<close>

definition record_failure :: "real \<Rightarrow> breaker \<Rightarrow> breaker" where
  "record_failure t b =
     (let b1 = b\<lparr>failures := failures b + 1\<rparr>
      in if threshold b1 \<le> failures b1 then b1\<lparr>block_until := t + cooldown_sec b1\<rparr> else b1)"

definition is_open :: "real \<Rightarrow> breaker \<Rightarrow> bool" where
  "is_open t b \<longleftrightarrow> t < block_until b"

text \<open>
  The length of the sleep of \<^verbatim>\<open>_sleep_backoff(attempt, base)\<close>, \<open>byte\<close> being the random
  byte it draws.
\<close>

definition backoff_delay :: "int \<Rightarrow> real \<Rightarrow> nat \<Rightarrow> real" where
  "backoff_delay attempt base byte =
     min (base * 2 ^ nat (attempt - 1)) 8 * (0.75 + 0.5 * real byte / 255)"

text \<open>
  The client: which SDK clients were created, the configured models and retry policy, the
  cache (a key-value store whose entries carry their expiry time) and the breakers by
  provider name.
\<close>

record llm_client =
  gemini_client :: bool
  openai_client :: bool
  nv_client :: bool
  gemini_model :: ustr
  openai_model :: ustr
  nvidia_model :: ustr
  max_retries :: int
  backoff_base :: real
  cache :: "ustr \<rightharpoonup> ustr \<times> real"
  breakers :: "ustr \<rightharpoonup> breaker"

text \<open>
  The network: the clock and the log of the requests sent to providers, each with the
  provider's name and the prompt.
\<close>

record net =
  clock :: real
  requests :: "(ustr \<times> ustr) list"

text \<open>
  What the SDKs give back. Gemini: the call raises, or the response has a \<^verbatim>\<open>text\<close>
  (possibly \<^verbatim>\<open>None\<close>) and candidates: none, the texts of the parts of the first one, or
  a first candidate whose parts cannot be read. OpenAI: the call raises, the response has
  no choices, or the first choice has a content. NVIDIA: the stream raises, or it is a
  sequence of chunks, each with a content.
\<close>

datatype candidates = NoCandidates | Parts "ustr option list" | Unreadable

datatype gemini_reply = GeminiRaises | GeminiResponse "ustr option" candidates

datatype openai_reply = OpenAIRaises | NoChoices | Message "ustr option"

datatype nvidia_reply = StreamRaises | Chunks "ustr option list"

record sdk =
  generate_content :: "ustr \<Rightarrow> net \<Rightarrow> gemini_reply \<times> real"
  openai_create :: "ustr \<Rightarrow> net \<Rightarrow> openai_reply \<times> real"
  nvidia_create :: "ustr \<Rightarrow> net \<Rightarrow> nvidia_reply \<times> real"
  urandom :: "net \<Rightarrow> nat"
  hash_str :: "ustr \<Rightarrow> ustr \<Rightarrow> ustr"

text \<open>
  \<^verbatim>\<open>AnalystCache.get\<close> and \<^verbatim>\<open>AnalystCache.set\<close> over the store; an entry is readable
  until its expiry time.
\<close>

definition cache_get :: "(ustr \<rightharpoonup> ustr \<times> real) \<Rightarrow> ustr \<Rightarrow> real \<Rightarrow> ustr option" where
  "cache_get c key t =
     (case c key of None \<Rightarrow> None | Some (v, expiry) \<Rightarrow> if t < expiry then Some v else None)"

definition cache_set ::
  "(ustr \<rightharpoonup> ustr \<times> real) \<Rightarrow> ustr \<Rightarrow> ustr \<Rightarrow> real \<Rightarrow> real \<Rightarrow> (ustr \<rightharpoonup> ustr \<times> real)" where
  "cache_set c key v expire t = c(key \<mapsto> (v, t + expire))"

text \<open>
  One pass through a \<^verbatim>\<open>try\<close> block of a retry loop ends with an exception or with the
  text extracted from the response (empty when there is none).
\<close>

datatype tried = Raised | Text ustr

definition or_empty :: "ustr option \<Rightarrow> ustr" where
  "or_empty t = (case t of None \<Rightarrow> [] | Some s \<Rightarrow> s)"

definition gemini_once :: "sdk \<Rightarrow> ustr \<Rightarrow> net \<Rightarrow> tried \<times> net" where
  "gemini_once k prompt w =
     (let (reply, dt) = generate_content k prompt w;
          w1 = w\<lparr>clock := clock w + dt, requests := requests w @ [(U ''gemini'', prompt)]\<rparr>
      in (case reply of
            GeminiRaises \<Rightarrow> Raised
          | GeminiResponse text cands \<Rightarrow>
              if or_empty text = [] then
                (case cands of
                   NoCandidates \<Rightarrow> Text []
                 | Parts parts \<Rightarrow> Text (strip (concat (map or_empty parts)))
                 | Unreadable \<Rightarrow> Raised)
              else Text (or_empty text),
          w1))"

definition openai_once :: "sdk \<Rightarrow> ustr \<Rightarrow> net \<Rightarrow> tried \<times> net" where
  "openai_once k prompt w =
     (let (reply, dt) = openai_create k prompt w;
          w1 = w\<lparr>clock := clock w + dt, requests := requests w @ [(U ''openai'', prompt)]\<rparr>
      in (case reply of
            OpenAIRaises \<Rightarrow> Raised
          | NoChoices \<Rightarrow> Text []
          | Message msg \<Rightarrow> Text (or_empty msg),
          w1))"

definition nvidia_once :: "sdk \<Rightarrow> ustr \<Rightarrow> net \<Rightarrow> tried \<times> net" where
  "nvidia_once k prompt w =
     (let (reply, dt) = nvidia_create k prompt w;
          w1 = w\<lparr>clock := clock w + dt, requests := requests w @ [(U ''nvidia'', prompt)]\<rparr>
      in (case reply of
            StreamRaises \<Rightarrow> Raised
          | Chunks deltas \<Rightarrow> Text (strip (concat (map or_empty deltas))),
          w1))"

text \<open>
  The retry loop, which the three \<^verbatim>\<open>call_\<close> functions each write out in the same words:
  while \<^verbatim>\<open>attempt <= max_retries\<close>, count the attempt and try once; a non-empty text is
  stored in the cache for 900 seconds and returned; after an exception the loop sleeps
  unless it was the last attempt; when the attempts are used up the result is \<^verbatim>\<open>None\<close>.
  The breakers are not mentioned.
\<close>

function retry_loop ::
  "sdk \<Rightarrow> (net \<Rightarrow> tried \<times> net) \<Rightarrow> llm_client \<Rightarrow> ustr \<Rightarrow> int \<Rightarrow> net \<Rightarrow>
   ustr option \<times> llm_client \<times> net" where
  "retry_loop k once self cache_key attempt w =
     (if attempt \<le> max_retries self then
        (case once w of
           (Text t, w1) \<Rightarrow>
             if t \<noteq> [] then
               (Some t, self\<lparr>cache := cache_set (cache self) cache_key t 900 (clock w1)\<rparr>, w1)
             else retry_loop k once self cache_key (attempt + 1) w1
         | (Raised, w1) \<Rightarrow>
             retry_loop k once self cache_key (attempt + 1)
               (if attempt + 1 \<le> max_retries self then
                  w1\<lparr>clock := clock w1 + backoff_delay (attempt + 1) (backoff_base self) (urandom k w1)\<rparr>
                else w1))
      else (None, self, w))"
  by pat_completeness auto
termination
  by (relation "measure (\<lambda>(k, once, self, cache_key, attempt, w).
        nat (max_retries self + 1 - attempt))") auto

declare retry_loop.simps [simp del]

text \<open>
  \<^verbatim>\<open>call_gemini\<close>, \<^verbatim>\<open>call_nvidia\<close> and \<^verbatim>\<open>call_openai\<close>: no SDK client, no call; a
  non-empty cached text is returned as it is; otherwise the retry loop.
\<close>

definition call_provider ::
  "sdk \<Rightarrow> (net \<Rightarrow> tried \<times> net) \<Rightarrow> llm_client \<Rightarrow> ustr \<Rightarrow> net \<Rightarrow> ustr option \<times> llm_client \<times> net"
  where
  "call_provider k once self cache_key w =
     (case cache_get (cache self) cache_key (clock w) of
        Some cached \<Rightarrow>
          if cached \<noteq> [] then (Some cached, self, w) else retry_loop k once self cache_key 0 w
      | None \<Rightarrow> retry_loop k once self cache_key 0 w)"

definition call_gemini :: "sdk \<Rightarrow> llm_client \<Rightarrow> ustr \<Rightarrow> net \<Rightarrow> ustr option \<times> llm_client \<times> net" where
  "call_gemini k self prompt w =
     (if \<not> gemini_client self then (None, self, w)
      else call_provider k (gemini_once k prompt) self
             (U ''llm:gemini:'' @ hash_str k prompt (gemini_model self)) w)"

definition call_nvidia :: "sdk \<Rightarrow> llm_client \<Rightarrow> ustr \<Rightarrow> net \<Rightarrow> ustr option \<times> llm_client \<times> net" where
  "call_nvidia k self prompt w =
     (if \<not> nv_client self then (None, self, w)
      else call_provider k (nvidia_once k prompt) self
             (U ''llm:nvidia:'' @ hash_str k prompt (nvidia_model self)) w)"

definition call_openai :: "sdk \<Rightarrow> llm_client \<Rightarrow> ustr \<Rightarrow> net \<Rightarrow> ustr option \<times> llm_client \<times> net" where
  "call_openai k self prompt w =
     (if \<not> openai_client self then (None, self, w)
      else call_provider k (openai_once k prompt) self
             (U ''llm:openai:'' @ hash_str k prompt (openai_model self)) w)"

section \<open>The sandbox executor (utils/code\_executor.py)\<close>

text \<open>
  The module keeps the running session in two globals, \<^verbatim>\<open>_active_container\<close> and
  \<^verbatim>\<open>_work_dir\<close>. The host is what the session lives in: the containers and the
  directories that exist. Everything the module asks of the host (a temporary directory,
  a file copy, \<^verbatim>\<open>docker run\<close>, writing the script, \<^verbatim>\<open>pip install\<close>, \<^verbatim>\<open>docker exec\<close>)
  either is done or raises: \<^verbatim>\<open>subprocess.TimeoutExpired\<close>, or another exception with its
  message. \<^verbatim>\<open>docker stop\<close>, \<^verbatim>\<open>docker rm\<close> and \<^verbatim>\<open>shutil.rmtree\<close> do what they say, and
  their failures are ignored by the code.
\<close>

datatype exc = TimeoutExpired | Exception ustr













text \<open>The argument \<^verbatim>\<open>code\<close>: a string, or a list of fragments that is joined.\<close>

datatype code = Script ustr | Fragments "ustr list"



section \<open>Properties of the parser\<close>

lemmas json_eval =
  json_loads_def skip_ws_def json_ws_def scan_step_def scan_key_def resume_step_def
  scan_scalar_def scan_number_def match_integer_def match_frac_def match_exp_def
  max_str_digits_def int_of_digits_def is_digit_def startswith_def U_def

lemmas parse_eval =
  parse_response_def strip_def lstrip_def rstrip_def isspace_def nl_cr_sp_def
  strip_backticks_if_needed_def lower_startswith_json_fence_def endswith_def dict_get_def
  py_str_def

text \<open>Stripping white space twice is stripping it once.\<close>

lemma rstrip_lstrip_fixed:
  assumes "a = [] \<or> \<not> p (hd a)"
  shows "dropWhile p (rev (dropWhile p (rev a))) = rev (dropWhile p (rev a))"
proof (cases "dropWhile p (rev a) = []")
  case True
  show ?thesis unfolding True by simp
next
  case False
  have a: "a = rev (dropWhile p (rev a)) @ rev (takeWhile p (rev a))"
    by (metis rev_append rev_rev_ident takeWhile_dropWhile_id)
  from False have "hd (rev (dropWhile p (rev a))) = hd a"
    by (metis a hd_append2 rev_is_Nil_conv)
  moreover from False have "a \<noteq> []" by auto
  ultimately have "\<not> p (hd (rev (dropWhile p (rev a))))"
    using assms by simp
  with False show ?thesis
    by (metis dropWhile_eq_self_iff rev_is_Nil_conv)
qed

lemma strip_idem: "strip (strip s) = strip s"
proof -
  let ?a = "dropWhile isspace s"
  have "?a = [] \<or> \<not> isspace (hd ?a)"
    using hd_dropWhile [of isspace s] by blast
  then have "dropWhile isspace (rev (dropWhile isspace (rev ?a))) =
      rev (dropWhile isspace (rev ?a))"
    by (rule rstrip_lstrip_fixed)
  then show ?thesis
    by (simp add: strip_def lstrip_def rstrip_def)
qed

lemma type_tags_distinct:
  "U ''continuation'' \<noteq> U ''code''" "U ''continuation'' \<noteq> U ''final_answer''"
  "U ''code'' \<noteq> U ''final_answer''"
  by (simp_all add: U_def)

text \<open>What the pattern-fallback tier does to the fields of a result.\<close>

lemma pattern_fallback_type:
  "type (pattern_fallback res text) =
     (if re_search (key_pattern (U ''final answer'')) text \<noteq> None then U ''final_answer''
      else if re_search (key_pattern (U ''code'')) text \<noteq> None then U ''code''
      else type res)"
  by (simp add: pattern_fallback_def Let_def split: option.splits)

lemma pattern_fallback_continuation:
  assumes "type (pattern_fallback res text) = U ''continuation''"
  shows "content (pattern_fallback res text) = JStr text"
  using assms type_tags_distinct
  by (auto simp: pattern_fallback_def Let_def split: option.splits)

lemma pattern_fallback_raw: "raw_response (pattern_fallback res text) = raw_response res"
  by (simp add: pattern_fallback_def Let_def split: option.splits)

lemma pattern_fallback_code_blocks:
  "type res \<noteq> U ''code'' \<Longrightarrow> type (pattern_fallback res text) = U ''code'' \<Longrightarrow>
   code_blocks (pattern_fallback res text) \<noteq> []"
  using type_tags_distinct
  by (auto simp: pattern_fallback_def Let_def split: option.splits)

lemma pattern_fallback_final_content:
  "type res \<noteq> U ''final_answer'' \<Longrightarrow> type (pattern_fallback res text) = U ''final_answer'' \<Longrightarrow>
   content (pattern_fallback res text) \<noteq> JNull"
  using type_tags_distinct
  by (auto simp: pattern_fallback_def Let_def split: option.splits)

text \<open>
  The result dictionary as \<^verbatim>\<open>parse_response\<close> creates it, and the outcomes of the decoder
  after which the parser goes on to the pattern-fallback tier: a decoding error, or a
  value that is not an object with one of the two keys.
\<close>

definition initial :: "ustr \<Rightarrow> parsed_response" where
  "initial response =
     \<lparr>raw_response = response, type = U ''continuation'', content = JStr [],
      code_blocks = [], final_answer = JNull, analysis = JNull, delegation = JNull,
      requires_followup = False\<rparr>"

definition falls_through :: "exn + json \<Rightarrow> bool" where
  "falls_through J =
     (case J of
        Inl JSONDecodeError \<Rightarrow> True
      | Inl ValueError \<Rightarrow> False
      | Inr (JObj pairs) \<Rightarrow>
          dict_get pairs (U ''final answer'') = None \<and> dict_get pairs (U ''code'') = None
      | Inr _ \<Rightarrow> True)"

lemma parse_response_falls_through:
  assumes "response \<noteq> []" "strip response \<noteq> []"
    and "falls_through (json_loads (strip_backticks_if_needed (strip response)))"
  shows "parse_response str_of response =
    Inr (pattern_fallback (initial response) (strip response))"
  using assms
  by (auto simp: parse_response_def falls_through_def initial_def Let_def
      split: sum.splits exn.splits json.splits)

lemma parse_response_continuation_form:
  assumes "parse_response str_of response = Inr r" "type r = U ''continuation''"
    and "response \<noteq> []" "strip response \<noteq> []"
  shows "falls_through (json_loads (strip_backticks_if_needed (strip response)))"
  using assms type_tags_distinct
  by (auto simp: parse_response_def falls_through_def Let_def
      split: sum.splits exn.splits json.splits option.splits)

lemma parse_response_raw:
  "parse_response str_of response = Inr r \<Longrightarrow> raw_response r = response"
  by (auto simp: parse_response_def Let_def pattern_fallback_raw
      split: sum.splits exn.splits json.splits option.splits if_splits)

lemma parse_response_type:
  "parse_response str_of response = Inr r \<Longrightarrow>
   type r = U ''final_answer'' \<or> type r = U ''code'' \<or> type r = U ''continuation''"
  by (auto simp: parse_response_def Let_def pattern_fallback_type
      split: sum.splits exn.splits json.splits option.splits if_splits)

text \<open>The only exception that leaves the parser is the decoder's \<^verbatim>\<open>ValueError\<close>.\<close>

lemma parse_response_raises:
  "parse_response str_of response = Inl e \<Longrightarrow>
   e = ValueError \<and> json_loads (strip_backticks_if_needed (strip response)) = Inl ValueError"
  by (auto simp: parse_response_def Let_def
      split: sum.splits exn.splits json.splits option.splits if_splits)

text \<open>
  C3. The four reference cases of the parser. A reply \<^verbatim>\<open>{"final answer": "4"}\<close> is a
  final answer with content \<^verbatim>\<open>"4"\<close>; \<^verbatim>\<open>{"code": "print(1)"}\<close> is code with the one
  block \<^verbatim>\<open>print(1)\<close>; \<^verbatim>\<open>{"code": ["a","b"], "analysis":"x"}\<close> is code with the blocks
  \<^verbatim>\<open>a\<close>, \<^verbatim>\<open>b\<close> in that order and analysis \<^verbatim>\<open>x\<close>; the empty string is a
  continuation that requires a follow-up. Each result is given in full.
\<close>

theorem parse_response_reference_cases:
  \<open>parse_response str_of (U ''{"final answer": "4"}'') =
     Inr \<lparr>raw_response = U ''{"final answer": "4"}'', type = U ''final_answer'',
          content = JStr (U ''4''), code_blocks = [], final_answer = JStr (U ''4''),
          analysis = JNull, delegation = JNull, requires_followup = False\<rparr> \<and>
   parse_response str_of (U ''{"code": "print(1)"}'') =
     Inr \<lparr>raw_response = U ''{"code": "print(1)"}'', type = U ''code'',
          content = JStr (U ''print(1)''), code_blocks = [U ''print(1)''], final_answer = JNull,
          analysis = JNull, delegation = JNull, requires_followup = False\<rparr> \<and>
   parse_response str_of (U ''{"code": ["a","b"], "analysis":"x"}'') =
     Inr \<lparr>raw_response = U ''{"code": ["a","b"], "analysis":"x"}'', type = U ''code'',
          content = JStr (U ''a'' @ [0x0A, 0x0A] @ U ''b''), code_blocks = [U ''a'', U ''b''],
          final_answer = JNull, analysis = JStr (U ''x''), delegation = JNull,
          requires_followup = False\<rparr> \<and>
   parse_response str_of [] =
     Inr \<lparr>raw_response = [], type = U ''continuation'', content = JStr [], code_blocks = [],
          final_answer = JNull, analysis = JNull, delegation = JNull,
          requires_followup = True\<rparr>\<close>
proof (intro conjI)
  show \<open>parse_response str_of (U ''{"final answer": "4"}'') =
     Inr \<lparr>raw_response = U ''{"final answer": "4"}'', type = U ''final_answer'',
          content = JStr (U ''4''), code_blocks = [], final_answer = JStr (U ''4''),
          analysis = JNull, delegation = JNull, requires_followup = False\<rparr>\<close>
    by (simp add: parse_eval json_eval)
  show \<open>parse_response str_of (U ''{"code": "print(1)"}'') =
     Inr \<lparr>raw_response = U ''{"code": "print(1)"}'', type = U ''code'',
          content = JStr (U ''print(1)''), code_blocks = [U ''print(1)''], final_answer = JNull,
          analysis = JNull, delegation = JNull, requires_followup = False\<rparr>\<close>
    by (simp add: parse_eval json_eval)
  show \<open>parse_response str_of (U ''{"code": ["a","b"], "analysis":"x"}'') =
     Inr \<lparr>raw_response = U ''{"code": ["a","b"], "analysis":"x"}'', type = U ''code'',
          content = JStr (U ''a'' @ [0x0A, 0x0A] @ U ''b''), code_blocks = [U ''a'', U ''b''],
          final_answer = JNull, analysis = JStr (U ''x''), delegation = JNull,
          requires_followup = False\<rparr>\<close>
    by (simp add: parse_eval json_eval)
  show \<open>parse_response str_of [] =
     Inr \<lparr>raw_response = [], type = U ''continuation'', content = JStr [], code_blocks = [],
          final_answer = JNull, analysis = JNull, delegation = JNull,
          requires_followup = True\<rparr>\<close>
    by (simp add: parse_response_def)
qed

text \<open>
  C4, as stated: a result of kind code has a non-empty list of code blocks and a result
  of kind final answer has content that is not \<^verbatim>\<open>None\<close>. The strict tier copies what the
  reply gives: on \<^verbatim>\<open>{"code": []}\<close> the result is code with no block, and on
  \<^verbatim>\<open>{"final answer": null}\<close> it is a final answer whose content is \<^verbatim>\<open>None\<close>.
\<close>

theorem parse_response_invariant_counterexample:
  \<open>\<forall>str_of.
     parse_response str_of (U ''{"code": []}'') =
       Inr \<lparr>raw_response = U ''{"code": []}'', type = U ''code'', content = JStr [],
            code_blocks = [], final_answer = JNull, analysis = JNull, delegation = JNull,
            requires_followup = False\<rparr> \<and>
     parse_response str_of (U ''{"final answer": null}'') =
       Inr \<lparr>raw_response = U ''{"final answer": null}'', type = U ''final_answer'',
            content = JNull, code_blocks = [], final_answer = JNull, analysis = JNull,
            delegation = JNull, requires_followup = False\<rparr>\<close>
proof (intro allI conjI)
  fix str_of :: "json \<Rightarrow> ustr"
  show \<open>parse_response str_of (U ''{"code": []}'') =
       Inr \<lparr>raw_response = U ''{"code": []}'', type = U ''code'', content = JStr [],
            code_blocks = [], final_answer = JNull, analysis = JNull, delegation = JNull,
            requires_followup = False\<rparr>\<close>
    by (simp add: parse_eval json_eval)
  show \<open>parse_response str_of (U ''{"final answer": null}'') =
       Inr \<lparr>raw_response = U ''{"final answer": null}'', type = U ''final_answer'',
            content = JNull, code_blocks = [], final_answer = JNull, analysis = JNull,
            delegation = JNull, requires_followup = False\<rparr>\<close>
    by (simp add: parse_eval json_eval)
qed

text \<open>
  C4, amended. Whenever the parser returns a result: if its kind is code, the list of
  code blocks is non-empty unless the reply, fences removed, is a JSON object whose
  \<^verbatim>\<open>code\<close> is the empty list; if its kind is final answer, the content is not \<^verbatim>\<open>None\<close>
  unless the reply is a JSON object whose \<^verbatim>\<open>final answer\<close> is \<^verbatim>\<open>null\<close>.
\<close>

theorem parse_response_invariant:
  assumes "parse_response str_of response = Inr r"
  shows "(type r = U ''code'' \<longrightarrow>
            code_blocks r \<noteq> [] \<or>
            (\<exists>pairs. json_loads (strip_backticks_if_needed (strip response)) = Inr (JObj pairs) \<and>
               dict_get pairs (U ''code'') = Some (JArr []))) \<and>
         (type r = U ''final_answer'' \<longrightarrow>
            content r \<noteq> JNull \<or>
            (\<exists>pairs. json_loads (strip_backticks_if_needed (strip response)) = Inr (JObj pairs) \<and>
               dict_get pairs (U ''final answer'') = Some JNull))"
proof (cases "response = [] \<or> strip response = []")
  case True
  with assms have "type r = U ''continuation''"
    by (auto simp: parse_response_def Let_def)
  then show ?thesis using type_tags_distinct by simp
next
  case False
  show ?thesis
  proof (cases "falls_through (json_loads (strip_backticks_if_needed (strip response)))")
    case True
    with False assms have r: "r = pattern_fallback (initial response) (strip response)"
      using parse_response_falls_through [of response str_of] by simp
    have "type (initial response) \<noteq> U ''code''"
      "type (initial response) \<noteq> U ''final_answer''"
      using type_tags_distinct by (simp_all add: initial_def)
    then show ?thesis
      unfolding r using pattern_fallback_code_blocks pattern_fallback_final_content by blast
  next
    case nft: False
    with False assms show ?thesis
      using type_tags_distinct
      by (auto simp: parse_response_def falls_through_def Let_def
          split: sum.splits exn.splits json.splits option.splits)
  qed
qed

theorem parse_response_invariant_witness:
  \<open>\<forall>str_of.
     parse_response str_of (U ''{"code": "print(1)"}'') =
       Inr \<lparr>raw_response = U ''{"code": "print(1)"}'', type = U ''code'',
            content = JStr (U ''print(1)''), code_blocks = [U ''print(1)''], final_answer = JNull,
            analysis = JNull, delegation = JNull, requires_followup = False\<rparr> \<and>
     code_blocks
       \<lparr>raw_response = U ''{"code": "print(1)"}'', type = U ''code'',
        content = JStr (U ''print(1)''), code_blocks = [U ''print(1)''], final_answer = JNull,
        analysis = JNull, delegation = JNull, requires_followup = False\<rparr> \<noteq> []\<close>
proof (intro allI)
  fix str_of :: "json \<Rightarrow> ustr"
  let ?r = \<open>\<lparr>raw_response = U ''{"code": "print(1)"}'', type = U ''code'',
        content = JStr (U ''print(1)''), code_blocks = [U ''print(1)''], final_answer = JNull,
        analysis = JNull, delegation = JNull, requires_followup = False\<rparr>\<close>
  have p: \<open>parse_response str_of (U ''{"code": "print(1)"}'') = Inr ?r\<close>
    by (simp add: parse_eval json_eval)
  have j: \<open>json_loads (strip_backticks_if_needed (strip (U ''{"code": "print(1)"}''))) =
      Inr (JObj [(U ''code'', JStr (U ''print(1)''))])\<close>
    by (simp add: parse_eval json_eval)
  have \<open>dict_get [(U ''code'', JStr (U ''print(1)''))] (U ''code'') \<noteq> Some (JArr [])\<close>
    by (simp add: dict_get_def)
  with parse_response_invariant [OF p] j have "code_blocks ?r \<noteq> []"
    by simp
  with p show \<open>parse_response str_of (U ''{"code": "print(1)"}'') = Inr ?r \<and> code_blocks ?r \<noteq> []\<close>
    by simp
qed

text \<open>
  C9. Parsing is idempotent on continuations: if a reply parses to a continuation, then
  the content of that result is a string, parsing that string again gives a
  continuation, and parsing the raw text kept in the result gives the same result.
\<close>

theorem continuation_reparse:
  assumes "parse_response str_of response = Inr r" and "type r = U ''continuation''"
  shows "\<exists>c r'. content r = JStr c \<and> parse_response str_of c = Inr r' \<and>
           type r' = U ''continuation'' \<and> parse_response str_of (raw_response r) = Inr r"
proof (cases "response = [] \<or> strip response = []")
  case True
  with assms(1) have "content r = JStr []"
    by (auto simp: parse_response_def Let_def)
  moreover have "\<exists>r'. parse_response str_of [] = Inr r' \<and> type r' = U ''continuation''"
    by (simp add: parse_response_def)
  ultimately show ?thesis
    using assms(1) parse_response_raw [OF assms(1)] by auto
next
  case False
  let ?text = "strip response"
  from False have ne: "response \<noteq> []" "?text \<noteq> []" by auto
  have ft: "falls_through (json_loads (strip_backticks_if_needed ?text))"
    using assms ne by (rule parse_response_continuation_form)
  have r: "r = pattern_fallback (initial response) ?text"
    using parse_response_falls_through [OF ne ft, of str_of] assms(1) by simp
  with assms(2) have c: "content r = JStr ?text"
    by (simp add: pattern_fallback_continuation)
  have st: "strip ?text = ?text" by (rule strip_idem)
  have "parse_response str_of ?text = Inr (pattern_fallback (initial ?text) (strip ?text))"
    using ne(2) ft by (intro parse_response_falls_through) (simp_all add: st)
  moreover have "type (pattern_fallback (initial ?text) (strip ?text)) =
      type (pattern_fallback (initial response) ?text)"
    by (simp add: pattern_fallback_type st initial_def)
  then have "type (pattern_fallback (initial ?text) (strip ?text)) = U ''continuation''"
    using assms(2) r by simp
  ultimately show ?thesis
    using c assms(1) parse_response_raw [OF assms(1)] by auto
qed

theorem continuation_reparse_witness:
  \<open>\<forall>str_of.
     parse_response str_of (U '' hello '') =
       Inr \<lparr>raw_response = U '' hello '', type = U ''continuation'', content = JStr (U ''hello''),
            code_blocks = [], final_answer = JNull, analysis = JNull, delegation = JNull,
            requires_followup = True\<rparr> \<and>
     (\<exists>r'. parse_response str_of (U ''hello'') = Inr r' \<and> type r' = U ''continuation'')\<close>
proof (intro allI)
  fix str_of :: "json \<Rightarrow> ustr"
  let ?r = \<open>\<lparr>raw_response = U '' hello '', type = U ''continuation'', content = JStr (U ''hello''),
            code_blocks = [], final_answer = JNull, analysis = JNull, delegation = JNull,
            requires_followup = True\<rparr>\<close>
  have p: \<open>parse_response str_of (U '' hello '') = Inr ?r\<close>
    by (simp add: parse_eval json_eval pattern_fallback_def key_pattern_def)
  have t: \<open>type ?r = U ''continuation''\<close>
    by simp
  from continuation_reparse [OF p t]
  have \<open>\<exists>r'. parse_response str_of (U ''hello'') = Inr r' \<and> type r' = U ''continuation''\<close>
    by auto
  with p show \<open>parse_response str_of (U '' hello '') = Inr ?r \<and>
     (\<exists>r'. parse_response str_of (U ''hello'') = Inr r' \<and> type r' = U ''continuation'')\<close>
    by simp
qed

text \<open>
  The parser always comes back, with the input kept verbatim and one of the three kinds,
  except when the decoder raises \<^verbatim>\<open>ValueError\<close>.
\<close>

lemma parse_response_returns_or_ValueError:
  "(\<exists>r. parse_response str_of response = Inr r \<and> raw_response r = response \<and>
        (type r = U ''final_answer'' \<or> type r = U ''code'' \<or> type r = U ''continuation'')) \<or>
   (parse_response str_of response = Inl ValueError \<and>
      json_loads (strip_backticks_if_needed (strip response)) = Inl ValueError)"
proof (cases "parse_response str_of response")
  case (Inl e)
  then show ?thesis using parse_response_raises [of str_of response e] by simp
next
  case (Inr r)
  then show ?thesis using parse_response_raw [OF Inr] parse_response_type [OF Inr] by simp
qed

text \<open>A reply that is a run of the digit \<^verbatim>\<open>1\<close>, longer than the interpreter converts.\<close>

lemma no_fence_at_digit:
  "\<not> lower_startswith_json_fence (0x31 # s)" "\<not> startswith (0x31 # s) (U ''```'')"
  by (auto simp: lower_startswith_json_fence_def startswith_def U_def split: list.splits)

lemma no_fence_after_digits: "\<not> endswith (replicate n 0x31) (U ''```'')"
proof
  assume "endswith (replicate n 0x31) (U ''```'')"
  then have "drop (length (replicate n (0x31::nat)) - length (U ''```'')) (replicate n 0x31) =
      U ''```''"
    by (simp only: endswith_def)
  then have "set (U ''```'') \<subseteq> set (replicate n (0x31::nat))"
    by (metis set_drop_subset)
  then show False by (simp add: U_def)
qed

lemma strip_digits: "strip (replicate n 0x31) = replicate n 0x31"
  by (simp add: strip_def lstrip_def rstrip_def isspace_def)

lemma strip_backticks_digits:
  "strip_backticks_if_needed (replicate (Suc n) 0x31) = replicate (Suc n) 0x31"
  using no_fence_at_digit [of "replicate n 0x31"] no_fence_after_digits [of "Suc n"]
    strip_digits [of "Suc n"]
  by (simp add: strip_backticks_if_needed_def Let_def)

lemma scan_number_long_integer:
  assumes "max_str_digits \<le> n"
  shows "scan_number (replicate (Suc n) 0x31) = Some (Inl ValueError)"
proof -
  have "match_integer (replicate (Suc n) 0x31) = Some (replicate (Suc n) 0x31)"
    by (simp add: match_integer_def startswith_def is_digit_def)
  with assms show ?thesis
    by (simp add: scan_number_def match_frac_def match_exp_def startswith_def)
qed

lemma json_loads_long_integer:
  assumes "max_str_digits \<le> n"
  shows "json_loads (replicate (Suc n) 0x31) = Inl ValueError"
proof -
  have "scan_scalar (replicate (Suc n) 0x31) = Inl ValueError"
    using scan_number_long_integer [OF assms]
    by (simp add: scan_scalar_def startswith_def U_def)
  then have "scan_step [] (replicate (Suc n) 0x31) = Inl ValueError"
    by (simp add: scan_step_def)
  then have "run (Scan [] (replicate (Suc n) 0x31)) = Inl ValueError"
    by simp
  moreover have "skip_ws (replicate (Suc n) 0x31) = replicate (Suc n) 0x31"
    by (simp add: skip_ws_def json_ws_def)
  ultimately show ?thesis
    by (simp add: json_loads_def startswith_def)
qed

text \<open>
  C10. The claim: for every input string the parser returns, without raising, a result
  whose raw text is the input and whose kind is one of the three. On a reply of 4301
  digits the decoder raises \<^verbatim>\<open>ValueError\<close>, which the parser's handler for
  \<^verbatim>\<open>JSONDecodeError\<close> does not catch: the call raises and returns nothing.
\<close>

theorem parse_response_raises_on_long_integer:
  "parse_response str_of (replicate 4301 0x31) = Inl ValueError"
proof -
  have n: "replicate 4301 (0x31::nat) = replicate (Suc 4300) 0x31"
    by simp
  have "json_loads (strip_backticks_if_needed (strip (replicate (Suc 4300) 0x31))) = Inl ValueError"
    using json_loads_long_integer [of 4300]
    by (simp only: strip_digits strip_backticks_digits) (simp add: max_str_digits_def)
  moreover have "strip (replicate (Suc 4300) 0x31) \<noteq> []" "replicate (Suc 4300) (0x31::nat) \<noteq> []"
    by (simp_all only: strip_digits) simp_all
  ultimately show ?thesis
    unfolding n by (simp add: parse_response_def Let_def)
qed

section \<open>Properties of the orchestrator\<close>

text \<open>
  The provider calls of one attempt: the body of the loop makes at most one, at the clock
  reading of the deadline check before it; the loop makes at most as many as iterations
  are left, all to the attempt's provider and all before the deadline.
\<close>

lemma loop_body_calls:
  assumes "loop_body e api_name ip fm h cp it w = (s, w')"
  shows "calls w' = calls w \<or> calls w' = calls w @ [(api_name, cp, now w)]"
  using assms
  by (auto simp: loop_body_def Let_def split: prod.splits option.splits if_splits sum.splits)

lemma while_loop_calls:
  "\<exists>cs. calls (snd (while_loop e self api_name ip fm deadline h cp it w)) = calls w @ cs \<and>
     length cs \<le> max_iterations self - it \<and>
     list_all (\<lambda>(a, q, t). a = api_name \<and> t < deadline) cs"
proof (induction e self api_name ip fm deadline h cp it w rule: while_loop.induct)
  case (1 e self api_name ip fm deadline h cp it w)
  show ?case
  proof (cases "it < max_iterations self \<and> \<not> deadline \<le> now w")
    case False
    then have "snd (while_loop e self api_name ip fm deadline h cp it w) = w"
      by (auto simp: while_loop.simps [of e self api_name ip fm deadline h cp it w])
    then show ?thesis by simp
  next
    case True
    obtain s w1 where b: "loop_body e api_name ip fm h cp (it + 1) w = (s, w1)"
      by (cases "loop_body e api_name ip fm h cp (it + 1) w")
    from loop_body_calls [OF b] obtain c0 where c0: "calls w1 = calls w @ c0"
      "length c0 \<le> 1" "list_all (\<lambda>(a, q, t). a = api_name \<and> t < deadline) c0"
      using True by (cases "calls w1 = calls w") auto
    show ?thesis
    proof (cases s)
      case (Return r)
      with True b have "snd (while_loop e self api_name ip fm deadline h cp it w) = w1"
        by (simp add: while_loop.simps [of e self api_name ip fm deadline h cp it w])
      with c0 True show ?thesis
        by (intro exI [of _ c0]) auto
    next
      case (Continue h' p')
      with True b have eq: "while_loop e self api_name ip fm deadline h cp it w =
          while_loop e self api_name ip fm deadline h' p' (it + 1) w1"
        by (simp add: while_loop.simps [of e self api_name ip fm deadline h cp it w])
      from True have t1: "it < max_iterations self" and t2: "\<not> deadline \<le> now w" by auto
      from "1.IH" [OF t1 t2 b [symmetric] _ ] Continue
      obtain cs where cs: "calls (snd (while_loop e self api_name ip fm deadline h' p' (it + 1) w1)) = calls w1 @ cs"
        "length cs \<le> max_iterations self - (it + 1)"
        "list_all (\<lambda>(a, q, t). a = api_name \<and> t < deadline) cs"
        by auto
      with c0 eq t1 show ?thesis
        by (intro exI [of _ "c0 @ cs"]) auto
    qed
  qed
qed

text \<open>
  Two worlds to run the orchestrator in: an empty log with the clock at zero, and a
  provider that takes 400 seconds to say that it is thinking.
\<close>

definition w0 :: world where
  "w0 = \<lparr>now = 0, calls = [], runs = []\<rparr>"

definition slow_env :: env where
  "slow_env =
     \<lparr>call_with_timeout = (\<lambda>api prompt w. (Some (U ''thinking''), 400)),
      executor_run = (\<lambda>blocks files w. (\<lparr>success = True, stdout = [], stderr = []\<rparr>, 1)),
      builtin_str = (\<lambda>v. []),
      builtin_repr = (\<lambda>s. s)\<rparr>"

lemma U_eq_Nil [simp]: "U s = [] \<longleftrightarrow> s = []"
  by (simp add: U_def)

lemma thinking_parse:
  "parse_llm_response str_of (U ''thinking'') =
     Inr \<lparr>raw_response = U ''thinking'', type = U ''continuation'', content = JStr (U ''thinking''),
          code_blocks = [], final_answer = JNull, analysis = JNull, delegation = JNull,
          requires_followup = True\<rparr>"
  by (simp add: parse_llm_response_def parse_eval json_eval pattern_fallback_def key_pattern_def)

text \<open>
  C2. One attempt against a provider makes at most \<^verbatim>\<open>max_iterations\<close> provider calls,
  all of them to that provider and each at a clock reading before the attempt's deadline
  (its start plus the global budget); and whenever the loop is entered with the deadline
  reached, it returns the failure "Global deadline exceeded" at once, with no call.
\<close>

theorem run_api_loop_bounded:
  "(\<exists>cs. calls (snd (run_api_loop e self api_name p fm w)) = calls w @ cs \<and>
      length cs \<le> max_iterations self \<and>
      list_all (\<lambda>(a, q, t). a = api_name \<and> t < now w + global_budget_sec self) cs) \<and>
   (iteration < max_iterations self \<and> deadline \<le> now w' \<longrightarrow>
      while_loop e self api_name p fm deadline history cp iteration w' =
        (Inr (deadline_exceeded api_name), w'))"
proof
  show "\<exists>cs. calls (snd (run_api_loop e self api_name p fm w)) = calls w @ cs \<and>
      length cs \<le> max_iterations self \<and>
      list_all (\<lambda>(a, q, t). a = api_name \<and> t < now w + global_budget_sec self) cs"
    using while_loop_calls [of e self api_name p fm "now w + global_budget_sec self" "[]" p 0 w]
    by (simp add: run_api_loop_def)
  show "iteration < max_iterations self \<and> deadline \<le> now w' \<longrightarrow>
      while_loop e self api_name p fm deadline history cp iteration w' =
        (Inr (deadline_exceeded api_name), w')"
    by (simp add: while_loop.simps [of e self api_name p fm deadline history cp iteration w'])
qed

theorem run_api_loop_bounded_witness:
  "run_api_loop slow_env LLMOrchestrator (U ''nvidia'') (U ''q'') [] w0 =
     (Inr (deadline_exceeded (U ''nvidia'')),
      \<lparr>now = 400, calls = [(U ''nvidia'', U ''q'', 0)], runs = []\<rparr>) \<and>
   (1::nat) < max_iterations LLMOrchestrator \<and> (300::int) \<le> 400 \<and>
   while_loop slow_env LLMOrchestrator (U ''nvidia'') (U ''q'') [] 300 []
       (continuation_prompt (U ''q'') (U ''thinking'')) 1
       \<lparr>now = 400, calls = [(U ''nvidia'', U ''q'', 0)], runs = []\<rparr> =
     (Inr (deadline_exceeded (U ''nvidia'')),
      \<lparr>now = 400, calls = [(U ''nvidia'', U ''q'', 0)], runs = []\<rparr>)"
proof -
  let ?w1 = "\<lparr>now = 400, calls = [(U ''nvidia'', U ''q'', 0)], runs = []\<rparr>"
  have b: "loop_body slow_env (U ''nvidia'') (U ''q'') [] [] (U ''q'') 1 w0 =
      (Continue [] (continuation_prompt (U ''q'') (U ''thinking'')), ?w1)"
    using type_tags_distinct
    by (simp add: loop_body_def slow_env_def w0_def thinking_parse Let_def)
  have m: "(1::nat) < max_iterations LLMOrchestrator"
    by (simp add: LLMOrchestrator_def)
  have d: "while_loop slow_env LLMOrchestrator (U ''nvidia'') (U ''q'') [] 300 []
       (continuation_prompt (U ''q'') (U ''thinking'')) 1 ?w1 =
     (Inr (deadline_exceeded (U ''nvidia'')), ?w1)"
    using run_api_loop_bounded [where iteration = 1 and self = LLMOrchestrator and deadline = 300
        and w' = ?w1] m by simp
  have "run_api_loop slow_env LLMOrchestrator (U ''nvidia'') (U ''q'') [] w0 =
      while_loop slow_env LLMOrchestrator (U ''nvidia'') (U ''q'') [] 300 []
       (continuation_prompt (U ''q'') (U ''thinking'')) 1 ?w1"
    using b
    by (simp add: run_api_loop_def while_loop.simps [of _ _ _ _ _ _ _ _ 0] LLMOrchestrator_def w0_def)
  with d m show ?thesis by simp
qed

text \<open>
  Two more worlds: a provider that answers \<^verbatim>\<open>{"final answer": "4"}\<close> after two seconds,
  and providers that return nothing after sixty.
\<close>

definition answering_env :: env where
  \<open>answering_env =
     \<lparr>call_with_timeout = (\<lambda>api prompt w. (Some (U ''{"final answer": "4"}''), 2)),
      executor_run = (\<lambda>blocks files w. (\<lparr>success = True, stdout = [], stderr = []\<rparr>, 1)),
      builtin_str = (\<lambda>v. []),
      builtin_repr = (\<lambda>s. s)\<rparr>\<close>

definition silent_env :: env where
  "silent_env =
     \<lparr>call_with_timeout = (\<lambda>api prompt w. (None, 60)),
      executor_run = (\<lambda>blocks files w. (\<lparr>success = True, stdout = [], stderr = []\<rparr>, 1)),
      builtin_str = (\<lambda>v. []),
      builtin_repr = (\<lambda>s. s)\<rparr>"

lemma answered_success:
  "dict_get (answered api_name it parsed out) (U ''success'') = Some (Val (JBool True))"
  by (simp add: dict_get_def answered_def U_def)

lemma failed_success:
  "dict_get (deadline_exceeded api_name) (U ''success'') = Some (Val (JBool False))"
  "dict_get (unknown_api api_name) (U ''success'') = Some (Val (JBool False))"
  "dict_get (returned_none api_name) (U ''success'') = Some (Val (JBool False))"
  "dict_get (max_iterations_reached self api_name) (U ''success'') = Some (Val (JBool False))"
  by (simp_all add: dict_get_def deadline_exceeded_def unknown_api_def returned_none_def
      max_iterations_reached_def U_def)




text \<open>A final answer in the first reply of the first provider ends the whole loop.\<close>

lemma first_attempt_answer:
  assumes "0 < max_iterations self" and "0 < global_budget_sec self"
    and "call_with_timeout e (U ''nvidia'') first_prompt w = (Some out, dt)" and "out \<noteq> []"
    and "parse_llm_response (builtin_str e) out = Inr parsed"
    and "type parsed = U ''final_answer''"
  shows "feedback_loop e self first_prompt file_map w =
    (Inr (answered (U ''nvidia'') 1 parsed out),
     w\<lparr>now := now w + int dt, calls := calls w @ [(U ''nvidia'', first_prompt, now w)]\<rparr>)"
proof -
  let ?w1 = "w\<lparr>now := now w + int dt, calls := calls w @ [(U ''nvidia'', first_prompt, now w)]\<rparr>"
  have b: "loop_body e (U ''nvidia'') first_prompt file_map [] first_prompt 1 w =
      (Return (Inr (answered (U ''nvidia'') 1 parsed out)), ?w1)"
    using assms(3-6) by (simp add: loop_body_def Let_def)
  have "run_api_loop e self (U ''nvidia'') first_prompt file_map w =
      (Inr (answered (U ''nvidia'') 1 parsed out), ?w1)"
    using assms(1,2) b
    by (simp add: run_api_loop_def while_loop.simps [of _ _ _ _ _ _ _ _ 0])
  then show ?thesis
    by (simp add: feedback_loop_def apis_def answered_success)
qed

lemma answer_parse:
  \<open>parse_llm_response str_of (U ''{"final answer": "4"}'') =
     Inr \<lparr>raw_response = U ''{"final answer": "4"}'', type = U ''final_answer'',
          content = JStr (U ''4''), code_blocks = [], final_answer = JStr (U ''4''),
          analysis = JNull, delegation = JNull, requires_followup = False\<rparr>\<close>
  by (simp add: parse_llm_response_def parse_eval json_eval)

lemma answering_run:
  \<open>feedback_loop answering_env LLMOrchestrator (U ''What is 2+2?'') [] w0 =
     (Inr (answered (U ''nvidia'') 1
             \<lparr>raw_response = U ''{"final answer": "4"}'', type = U ''final_answer'',
              content = JStr (U ''4''), code_blocks = [], final_answer = JStr (U ''4''),
              analysis = JNull, delegation = JNull, requires_followup = False\<rparr>
             (U ''{"final answer": "4"}'')),
      \<lparr>now = 2, calls = [(U ''nvidia'', U ''What is 2+2?'', 0)], runs = []\<rparr>)\<close>
proof -
  have 1: "0 < max_iterations LLMOrchestrator" "0 < global_budget_sec LLMOrchestrator"
    by (simp_all add: LLMOrchestrator_def)
  have 2: \<open>call_with_timeout answering_env (U ''nvidia'') (U ''What is 2+2?'') w0 =
      (Some (U ''{"final answer": "4"}''), 2)\<close>
    by (simp add: answering_env_def)
  have 3: \<open>U ''{"final answer": "4"}'' \<noteq> []\<close>
    by simp
  show ?thesis
    using first_attempt_answer [OF 1 2 3 answer_parse, of "[]"]
    by (simp add: w0_def)
qed



text \<open>Every result of an attempt is one of four failures or an answer.\<close>

definition failure :: "orchestrator \<Rightarrow> ustr \<Rightarrow> result \<Rightarrow> bool" where
  "failure self api_name r \<longleftrightarrow>
     r = deadline_exceeded api_name \<or> r = unknown_api api_name \<or> r = returned_none api_name \<or>
     r = max_iterations_reached self api_name"

lemma failure_success:
  "failure self api_name r \<Longrightarrow> dict_get r (U ''success'') = Some (Val (JBool False))"
  by (auto simp: failure_def failed_success)

lemma loop_body_result:
  assumes "loop_body e api_name ip fm h cp it w = (Return (Inr r), w')"
  shows "failure self api_name r \<or> (\<exists>parsed out. r = answered api_name it parsed out)"
  using assms
  by (auto simp: loop_body_def failure_def Let_def
      split: prod.splits option.splits if_splits sum.splits)

lemma while_loop_result:
  "fst (while_loop e self api_name ip fm deadline h cp it w) = Inr r \<Longrightarrow>
   failure self api_name r \<or> (\<exists>n parsed out. r = answered api_name n parsed out)"
proof (induction e self api_name ip fm deadline h cp it w rule: while_loop.induct)
  case (1 e self api_name ip fm deadline h cp it w)
  show ?case
  proof (cases "it < max_iterations self \<and> \<not> deadline \<le> now w")
    case False
    with "1.prems" show ?thesis
      by (auto simp: while_loop.simps [of e self api_name ip fm deadline h cp it w] failure_def
          split: if_splits)
  next
    case True
    obtain s w1 where b: "loop_body e api_name ip fm h cp (it + 1) w = (s, w1)"
      by (cases "loop_body e api_name ip fm h cp (it + 1) w")
    show ?thesis
    proof (cases s)
      case (Return x)
      with True b "1.prems" have "x = Inr r"
        by (simp add: while_loop.simps [of e self api_name ip fm deadline h cp it w])
      with b Return show ?thesis
        using loop_body_result [of e api_name ip fm h cp "it + 1" w r w1 self] by auto
    next
      case (Continue h' p')
      with True b have eq: "while_loop e self api_name ip fm deadline h cp it w =
          while_loop e self api_name ip fm deadline h' p' (it + 1) w1"
        by (simp add: while_loop.simps [of e self api_name ip fm deadline h cp it w])
      from True have t1: "it < max_iterations self" and t2: "\<not> deadline \<le> now w" by auto
      from "1.IH" [OF t1 t2 b [symmetric] _ ] Continue "1.prems" eq show ?thesis
        by auto
    qed
  qed
qed

lemma for_api_result:
  "fst (for_api e self p fm as w) = Inr r \<Longrightarrow>
   r = all_failed \<or> (\<exists>api_name n parsed out. r = answered api_name n parsed out)"
proof (induction as arbitrary: w)
  case Nil
  then show ?case by simp
next
  case (Cons a as)
  obtain x w1 where run: "run_api_loop e self a p fm w = (x, w1)"
    by (cases "run_api_loop e self a p fm w")
  show ?case
  proof (cases x)
    case (Inl exc)
    with run Cons.prems show ?thesis by simp
  next
    case (Inr r1)
    with run have "failure self a r1 \<or> (\<exists>n parsed out. r1 = answered a n parsed out)"
      using while_loop_result [of e self a p fm "now w + global_budget_sec self" "[]" p 0 w r1]
      by (simp add: run_api_loop_def)
    then show ?thesis
    proof
      assume "failure self a r1"
      then have "dict_get r1 (U ''success'') = Some (Val (JBool False))"
        by (rule failure_success)
      with run Inr Cons.prems have "fst (for_api e self p fm as w1) = Inr r"
        by simp
      then show ?thesis by (rule Cons.IH)
    next
      assume ex: "\<exists>n parsed out. r1 = answered a n parsed out"
      with run Inr Cons.prems have "r = r1"
        by (auto simp: answered_success)
      with ex show ?thesis by blast
    qed
  qed
qed

text \<open>When no provider returns anything, every provider is called once and all fail.\<close>

lemma silent_run:
  "feedback_loop silent_env LLMOrchestrator (U ''q'') [] w0 =
     (Inr [(U ''success'', Val (JBool False)),
           (U ''error'',
            Val (JStr (U ''All APIs (Gemini, Nvidia, OpenAI) failed to provide a response''))),
           (U ''final_answer'', Val JNull)],
      \<lparr>now = 180,
       calls = [(U ''nvidia'', U ''q'', 0), (U ''gemini'', U ''q'', 60), (U ''openai'', U ''q'', 120)],
       runs = []\<rparr>)"
proof -
  have b: "\<And>a w. a = U ''nvidia'' \<or> a = U ''gemini'' \<or> a = U ''openai'' \<Longrightarrow>
      run_api_loop silent_env LLMOrchestrator a (U ''q'') [] w =
      (Inr (returned_none a), w\<lparr>now := now w + 60, calls := calls w @ [(a, U ''q'', now w)]\<rparr>)"
    by (auto simp: run_api_loop_def while_loop.simps [of _ _ _ _ _ _ _ _ 0] LLMOrchestrator_def
        loop_body_def silent_env_def Let_def)
  show ?thesis
    by (simp add: feedback_loop_def apis_def b failed_success w0_def all_failed_def)
qed

text \<open>
  C8, as stated: every result of the feedback loop has the five fields \<^verbatim>\<open>success\<close>,
  \<^verbatim>\<open>final_answer\<close>, \<^verbatim>\<open>api_used\<close>, \<^verbatim>\<open>iterations\<close> and \<^verbatim>\<open>error\<close>. When every provider
  returns nothing, the result has three: \<^verbatim>\<open>success\<close>, \<^verbatim>\<open>error\<close> and \<^verbatim>\<open>final_answer\<close>;
  it has no \<^verbatim>\<open>api_used\<close> and no \<^verbatim>\<open>iterations\<close>.
\<close>

theorem feedback_loop_result_shape_counterexample:
  "fst (feedback_loop silent_env LLMOrchestrator (U ''q'') [] w0) =
     Inr [(U ''success'', Val (JBool False)),
          (U ''error'',
           Val (JStr (U ''All APIs (Gemini, Nvidia, OpenAI) failed to provide a response''))),
          (U ''final_answer'', Val JNull)] \<and>
   dict_get
     [(U ''success'', Val (JBool False)),
      (U ''error'',
       Val (JStr (U ''All APIs (Gemini, Nvidia, OpenAI) failed to provide a response''))),
      (U ''final_answer'', Val JNull)] (U ''api_used'') = None \<and>
   dict_get
     [(U ''success'', Val (JBool False)),
      (U ''error'',
       Val (JStr (U ''All APIs (Gemini, Nvidia, OpenAI) failed to provide a response''))),
      (U ''final_answer'', Val JNull)] (U ''iterations'') = None"
  by (simp add: silent_run) (simp add: dict_get_def U_def)

text \<open>
  C8, amended. Every result that the feedback loop returns has one of two shapes: on
  success the fields \<^verbatim>\<open>success\<close> (true), \<^verbatim>\<open>final_answer\<close>, \<^verbatim>\<open>api_used\<close>, \<^verbatim>\<open>iterations\<close>,
  \<^verbatim>\<open>parsed\<close> and \<^verbatim>\<open>raw_output\<close>, and no \<^verbatim>\<open>error\<close>; on failure the fields \<^verbatim>\<open>success\<close>
  (false), \<^verbatim>\<open>error\<close> and \<^verbatim>\<open>final_answer\<close> (\<^verbatim>\<open>None\<close>), and neither \<^verbatim>\<open>api_used\<close> nor
  \<^verbatim>\<open>iterations\<close>.
\<close>

theorem feedback_loop_result_shape:
  assumes "fst (feedback_loop e self first_prompt file_map w) = Inr r"
  shows "(map fst r = [U ''success'', U ''final_answer'', U ''api_used'', U ''iterations'',
                       U ''parsed'', U ''raw_output''] \<and>
          dict_get r (U ''success'') = Some (Val (JBool True))) \<or>
         (map fst r = [U ''success'', U ''error'', U ''final_answer''] \<and>
          dict_get r (U ''success'') = Some (Val (JBool False)) \<and>
          dict_get r (U ''final_answer'') = Some (Val JNull))"
proof -
  from assms have "r = all_failed \<or> (\<exists>api_name n parsed out. r = answered api_name n parsed out)"
    unfolding feedback_loop_def by (rule for_api_result)
  then show ?thesis
  proof
    assume "r = all_failed"
    then show ?thesis
      by (simp add: all_failed_def dict_get_def U_def)
  next
    assume "\<exists>api_name n parsed out. r = answered api_name n parsed out"
    then obtain api_name n parsed out where r: "r = answered api_name n parsed out"
      by blast
    have "map fst r = [U ''success'', U ''final_answer'', U ''api_used'', U ''iterations'',
        U ''parsed'', U ''raw_output'']"
      unfolding r by (simp add: answered_def)
    moreover have "dict_get r (U ''success'') = Some (Val (JBool True))"
      unfolding r by (rule answered_success)
    ultimately show ?thesis by blast
  qed
qed

theorem feedback_loop_result_shape_witness:
  \<open>fst (feedback_loop answering_env LLMOrchestrator (U ''What is 2+2?'') [] w0) =
     Inr [(U ''success'', Val (JBool True)),
          (U ''final_answer'', Val (JStr (U ''4''))),
          (U ''api_used'', Val (JStr (U ''nvidia''))),
          (U ''iterations'', Val (JInt 1)),
          (U ''parsed'',
           Parsed \<lparr>raw_response = U ''{"final answer": "4"}'', type = U ''final_answer'',
                   content = JStr (U ''4''), code_blocks = [], final_answer = JStr (U ''4''),
                   analysis = JNull, delegation = JNull, requires_followup = False\<rparr>),
          (U ''raw_output'', Val (JStr (U ''{"final answer": "4"}'')))] \<and>
   dict_get
     [(U ''success'', Val (JBool True)),
      (U ''final_answer'', Val (JStr (U ''4''))),
      (U ''api_used'', Val (JStr (U ''nvidia''))),
      (U ''iterations'', Val (JInt 1)),
      (U ''parsed'',
       Parsed \<lparr>raw_response = U ''{"final answer": "4"}'', type = U ''final_answer'',
               content = JStr (U ''4''), code_blocks = [], final_answer = JStr (U ''4''),
               analysis = JNull, delegation = JNull, requires_followup = False\<rparr>),
      (U ''raw_output'', Val (JStr (U ''{"final answer": "4"}'')))]
     (U ''success'') = Some (Val (JBool True))\<close>
proof -
  let ?r = \<open>[(U ''success'', Val (JBool True)),
          (U ''final_answer'', Val (JStr (U ''4''))),
          (U ''api_used'', Val (JStr (U ''nvidia''))),
          (U ''iterations'', Val (JInt 1)),
          (U ''parsed'',
           Parsed \<lparr>raw_response = U ''{"final answer": "4"}'', type = U ''final_answer'',
                   content = JStr (U ''4''), code_blocks = [], final_answer = JStr (U ''4''),
                   analysis = JNull, delegation = JNull, requires_followup = False\<rparr>),
          (U ''raw_output'', Val (JStr (U ''{"final answer": "4"}'')))]\<close>
  have r: \<open>fst (feedback_loop answering_env LLMOrchestrator (U ''What is 2+2?'') [] w0) = Inr ?r\<close>
    by (simp add: answering_run answered_def)
  have \<open>map fst ?r \<noteq> [U ''success'', U ''error'', U ''final_answer'']\<close>
    by simp
  with feedback_loop_result_shape [OF r] have \<open>dict_get ?r (U ''success'') = Some (Val (JBool True))\<close>
    by blast
  with r show ?thesis by simp
qed

section \<open>Properties of the provider client\<close>




text \<open>
  The breaker on its own: once the failures recorded reach the threshold it is open for
  the cooldown that follows the last failure, and closed after it.
\<close>

lemma record_failure_opens:
  "threshold b \<le> failures b + 1 \<Longrightarrow>
   is_open t' (record_failure t b) \<longleftrightarrow> t' < t + cooldown_sec b"
  by (simp add: record_failure_def is_open_def Let_def)


lemma retry_loop_breakers:
  "breakers (fst (snd (retry_loop k once self key attempt w))) = breakers self"
proof (induction k once self key attempt w rule: retry_loop.induct)
  case (1 k once self key attempt w)
  show ?case
  proof (cases "attempt \<le> max_retries self")
    case False
    then show ?thesis
      by (simp add: retry_loop.simps [of k once self key attempt w])
  next
    case True
    obtain r w1 where o: "once w = (r, w1)" by (cases "once w")
    show ?thesis
    proof (cases r)
      case Raised
      with True o "1.IH"(1) [OF True o [symmetric] Raised] show ?thesis
        by (simp add: retry_loop.simps [of k once self key attempt w])
    next
      case (Text t)
      show ?thesis
      proof (cases "t = []")
        case False
        with True o Text show ?thesis
          by (simp add: retry_loop.simps [of k once self key attempt w])
      next
        case empty: True
        then have "\<not> t \<noteq> []" by simp
        with True o Text "1.IH"(2) [OF True o [symmetric] Text this] show ?thesis
          by (simp add: retry_loop.simps [of k once self key attempt w])
      qed
    qed
  qed
qed

lemma call_gemini_breakers:
  "breakers (fst (snd (call_gemini k self prompt w))) = breakers self"
  by (simp add: call_gemini_def call_provider_def retry_loop_breakers split: option.splits)



section \<open>Properties of the sandbox executor\<close>

























end
